theory Spec2Isabelle
  imports Main "HOL-Library.Log_Nat"
begin

section \<open>Overview\<close>

text \<open>
  A shallow embedding of the Flow coverage package for the Atom editor: the status-bar
  view of \<open>lib/coverage-view.js\<close>, which shows the percentage of covered expressions, and
  the package's main module, whose linter runs \<open>flow coverage --json\<close> on a file, retries
  while the Flow server is starting or rechecking, caches the parsed report for the
  editor, updates the view and returns the messages for the uncovered regions. State is
  passed explicitly: the package object with the module's set of spawned servers, and the
  host editor with the invocations and tooltips it has been asked for. Thrown errors are
  the left values of a sum, and the retry loop is a partial function.
\<close>

section \<open>JavaScript numbers\<close>

text \<open>
  A JavaScript \<open>number\<close> is an IEEE 754 double. A finite double is modelled as the
  rational it denotes, and every arithmetic operation of the source is the exact operation
  followed by \<open>fl\<close>, rounding to the nearest double (53 significant bits, ties to even).
  Overflow, subnormals, NaN and the sign of zero are not modelled: the values that the
  presenter computes from two counts stay far inside the normal range.
\<close>

type_synonym number = rat

definition ilog2 :: "rat \<Rightarrow> int" where
  \<comment> \<open>the binary exponent \<open>\<lfloor>log\<^sub>2 x\<rfloor>\<close> of a positive rational\<close>
  "ilog2 x = (case quotient_of x of (p, q) \<Rightarrow>
     (let d = bitlen p - bitlen q in if 2 powi d \<le> x then d else d - 1))"

definition round_half_even :: "rat \<Rightarrow> int" where
  "round_half_even q = (let n = \<lfloor>q\<rfloor>; r = q - of_int n in
     if r < 1 / 2 then n else if 1 / 2 < r then n + 1 else if even n then n else n + 1)"

definition fl :: "rat \<Rightarrow> number" where
  "fl x = (if x = 0 then 0 else
     (let u = 2 powi (ilog2 \<bar>x\<bar> - 52)
      in sgn x * of_int (round_half_even (\<bar>x\<bar> / u)) * u))"

definition Math_round :: "number \<Rightarrow> number" where
  \<comment> \<open>\<open>Math.round\<close>: the nearest integer, a tie going towards \<open>+\<infinity>\<close>\<close>
  "Math_round x = of_int \<lfloor>x + 1 / 2\<rfloor>"

definition number_of :: "nat \<Rightarrow> number" where
  \<comment> \<open>the number that an integer literal of the JSON text denotes\<close>
  "number_of n = fl (of_nat n)"

definition digit_char :: "nat \<Rightarrow> char" where
  "digit_char d = char_of (48 + d)"

fun digits :: "nat \<Rightarrow> string" where
  "digits n = (if n < 10 then [digit_char n] else digits (n div 10) @ [digit_char (n mod 10)])"

declare digits.simps [simp del]

definition Number_toString :: "number \<Rightarrow> string" where
  \<comment> \<open>the string that a template literal inserts for an integral number of magnitude
      below \<open>10\<^sup>2\<^sup>1\<close>: its decimal digits, with a sign\<close>
  "Number_toString x = (if x < 0 then ''-'' else []) @ digits (nat \<lfloor>\<bar>x\<bar>\<rfloor>)"

section \<open>Coverage reports\<close>

text \<open>
  Modelled from the spec: the type \<open>CoverageObject\<close> is declared in \<open>lib/types\<close>, which
  is not among the sources. Its shape is the JSON wire shape of the checker's coverage
  report: two counts under \<open>expressions\<close> and the list \<open>uncoveredLocations\<close> of regions,
  each a span from a start position to an end position.
\<close>

record position =
  line :: nat
  column :: nat

record Region =
  region_start :: position
  region_end :: position

record expression_counts =
  covered_count :: nat
  uncovered_count :: nat

record CoverageObject =
  expressions :: expression_counts
  uncoveredLocations :: "Region list"

text \<open>
  What \<open>JSON.parse\<close> returns is any JSON value. The source gives it the type
  \<open>CoverageObject\<close> without a check, so a parsed value is either a report of that type or
  a JSON value that is not of that type: \<open>null\<close>, a value without \<open>expressions\<close>, counts
  that are no numbers. An object is the list of its properties, each key once.
\<close>

datatype json =
  JNull | JBool bool | JNumber rat | JString string | JArray "json list"
  | JObject "(string \<times> json) list"

datatype parsed = Report CoverageObject | Other json

section \<open>The host editor\<close>

text \<open>
  What the package does to its host is recorded in the host's state: the child processes
  it has asked for, in order, and the tooltips it has registered. A tooltip is known to
  the package by its disposable, here the tooltip's index in that list.
\<close>

record exec_call =
  command :: string
  args :: "string list"
  cwd :: string
  timeout :: nat
  uniqueKey :: "string option"
  detached :: bool
  ignoreExitCode :: bool

record tooltip =
  title :: string
  disposed :: bool

record host =
  exec_calls :: "exec_call list"
  tooltips :: "tooltip list"

definition dispose :: "nat \<Rightarrow> host \<Rightarrow> host" where
  "dispose i h = h\<lparr>tooltips := (tooltips h)[i := (tooltips h ! i)\<lparr>disposed := True\<rparr>]\<rparr>"

definition tooltips_add :: "string \<Rightarrow> host \<Rightarrow> nat \<times> host" where
  "tooltips_add t h =
     (length (tooltips h), h\<lparr>tooltips := tooltips h @ [\<lparr>title = t, disposed = False\<rparr>]\<rparr>)"

section \<open>The coverage view (lib/coverage-view.js)\<close>

record CoverageView =
  textContent :: string
  classList :: "string list"
  tooltipDisposable :: "nat option"

definition classList_add :: "string \<Rightarrow> string list \<Rightarrow> string list" where
  "classList_add c cs = (if c \<in> set cs then cs else cs @ [c])"

definition classList_remove :: "string \<Rightarrow> string list \<Rightarrow> string list" where
  "classList_remove c cs = filter (\<lambda>x. x \<noteq> c) cs"

definition percent_of :: "number \<Rightarrow> number \<Rightarrow> number" where
  \<comment> \<open>the local \<open>percent\<close> of \<open>update\<close>, from its locals \<open>covered\<close> and \<open>total\<close>\<close>
  "percent_of covered total' =
     (if total' = 0 then 0 else Math_round (fl (fl (covered / total') * 100)))"

definition update :: "CoverageObject \<Rightarrow> CoverageView \<Rightarrow> host \<Rightarrow> CoverageView \<times> host" where
  "update json view h =
     (let covered = number_of (covered_count (expressions json));
          uncovered = number_of (uncovered_count (expressions json));
          total' = fl (covered + uncovered);
          percent = percent_of covered total';
          view1 = view\<lparr>textContent := ''Flow Coverage: '' @ Number_toString percent @ ''%''\<rparr>;
          h1 = (case tooltipDisposable view1 of None \<Rightarrow> h | Some d \<Rightarrow> dispose d h);
          view2 = view1\<lparr>classList :=
                    classList_remove ''ide-flowtype-coverage-hide'' (classList view1)\<rparr>;
          (d, h2) = tooltips_add
                     (''Covered '' @ Number_toString percent @ ''% ('' @ Number_toString covered
                        @ '' of '' @ Number_toString total'
                        @ '' expressions)<br>Click to toggle uncovered code'') h1
      in (view2\<lparr>tooltipDisposable := Some d\<rparr>, h2))"

definition reset :: "CoverageView \<Rightarrow> host \<Rightarrow> CoverageView \<times> host" where
  "reset view h =
     (let view1 = view\<lparr>classList := classList_add ''ide-flowtype-coverage-hide'' (classList view)\<rparr>;
          view2 = view1\<lparr>textContent := []\<rparr>
      in (view2, case tooltipDisposable view2 of None \<Rightarrow> h | Some d \<Rightarrow> dispose d h))"

definition percentage :: "CoverageObject \<Rightarrow> number" where
  \<comment> \<open>the value of the local \<open>percent\<close> when \<open>update\<close> is given the report\<close>
  "percentage json =
     (let covered = number_of (covered_count (expressions json));
          uncovered = number_of (uncovered_count (expressions json));
          total' = fl (covered + uncovered)
      in percent_of covered total')"

section \<open>The package (the main module)\<close>

subsection \<open>Strings and errors\<close>

definition startsWith :: "string \<Rightarrow> string \<Rightarrow> bool" where
  "startsWith s pat = (take (length pat) s = pat)"

primrec indexOf :: "string \<Rightarrow> string \<Rightarrow> int" where
  "indexOf [] pat = (if pat = [] then 0 else - 1)"
| "indexOf (c # cs) pat =
     (if startsWith (c # cs) pat then 0
      else (let i = indexOf cs pat in if i = - 1 then - 1 else i + 1))"

datatype js_error = Error (message: string) (code: "string option")

datatype exec_outcome = Resolved "string option" | Rejected js_error

definition truthy :: "string option \<Rightarrow> bool" where
  \<comment> \<open>a value that is \<open>null\<close>, \<open>undefined\<close> or a string is truthy when it is a non-empty string\<close>
  "truthy v = (case v of None \<Rightarrow> False | Some s \<Rightarrow> s \<noteq> [])"

subsection \<open>Collaborators\<close>

text \<open>
  The package's collaborators are parameters of the model: the two marker constants
  \<open>INIT_MESSAGE\<close> and \<open>RECHECKING_MESSAGE\<close> and the function \<open>toCoverageLinterMessages\<close> of
  \<open>lib/helpers\<close> (not among the sources), the upward file search \<open>findCached\<close> and
  \<open>findCachedAsync\<close> and the process invoker \<open>exec\<close> of the linter library,
  \<open>Path.dirname\<close> and \<open>JSON.parse\<close>. The search is one function of the directory and the
  file name, for both its variants. The invoker's outcome is a function of the calls
  made before and of the call: a resolved output (\<open>null\<close> when the invocation was
  superseded) or a rejection. \<open>JSON.parse\<close> throws or returns a parsed value. For a value
  that is not of the declared type, two more parameters stand for what is not modelled:
  \<open>coerced\<close> gives the three strings that the view's arithmetic and template literals
  make of its counts (the percentage, the covered count and the total, under the
  language's coercions) or the error that the sum of the counts throws when a count has
  no primitive value, and \<open>untyped_messages\<close> what \<open>toCoverageLinterMessages\<close> does with
  it.
\<close>

datatype TextEditor = TextEditor (editor_id: nat) (getPath: string)

datatype severity = Info | Warning

record diagnostic =
  diagnostic_severity :: severity
  location :: Region

record env =
  INIT_MESSAGE :: string
  RECHECKING_MESSAGE :: string
  findCached :: "string \<Rightarrow> string \<Rightarrow> string option"
  Path_dirname :: "string \<Rightarrow> string"
  exec :: "exec_call list \<Rightarrow> exec_call \<Rightarrow> exec_outcome"
  JSON_parse :: "string \<Rightarrow> js_error + parsed"
  uncovered_severity :: severity
  coerced :: "json \<Rightarrow> js_error + string \<times> string \<times> string"
  untyped_messages :: "json \<Rightarrow> js_error + diagnostic list"

definition findCachedAsync :: "env \<Rightarrow> string \<Rightarrow> string \<Rightarrow> string option" where
  "findCachedAsync e directory name = findCached e directory name"

text \<open>
  Modelled from the spec: \<open>toCoverageLinterMessages\<close> is defined in \<open>lib/helpers\<close>, which
  is not among the sources. It gives one diagnostic message for each region of
  \<open>uncoveredLocations\<close>, in order, tagged with a severity (informational or warning) and
  positioned at the region's span.
\<close>

definition toCoverageLinterMessages :: "env \<Rightarrow> CoverageObject \<Rightarrow> diagnostic list" where
  "toCoverageLinterMessages e coverage =
     map (\<lambda>r. \<lparr>diagnostic_severity = uncovered_severity e, location = r\<rparr>)
       (uncoveredLocations coverage)"

subsection \<open>State\<close>

text \<open>
  The fields of the package object that the linter reads and writes, and the module's
  set \<open>spawnedServers\<close>, a list without repetition in insertion order (the order in which
  a JavaScript \<open>Set\<close> is traversed).
\<close>

record package =
  executablePath :: string
  onlyIfAppropriate :: bool
  showUncovered :: bool
  coverages :: "TextEditor \<rightharpoonup> parsed"
  coverageView :: "CoverageView option"
  spawnedServers :: "string list"

definition Set_add :: "string \<Rightarrow> string list \<Rightarrow> string list" where
  "Set_add x xs = (if x \<in> set xs then xs else xs @ [x])"

definition defaultFlowBinLocation :: string where
  "defaultFlowBinLocation = ''node_modules/.bin/flow''"

subsection \<open>Operations\<close>

definition getExecutablePath :: "env \<Rightarrow> package \<Rightarrow> string \<Rightarrow> string" where
  "getExecutablePath e pkg fileDirectory =
     (if executablePath pkg \<noteq> [] then executablePath pkg
      else (case findCachedAsync e fileDirectory defaultFlowBinLocation of
              Some p \<Rightarrow> if p \<noteq> [] then p else ''flow''
            | None \<Rightarrow> ''flow''))"

definition coverage_call :: "string \<Rightarrow> string \<Rightarrow> string \<Rightarrow> exec_call" where
  \<comment> \<open>the invocation \<open>exec(executable, ['coverage', filePath, '--json'], {...})\<close> of \<open>lint\<close>\<close>
  "coverage_call executable filePath fileDirectory =
     \<lparr>command = executable, args = [''coverage'', filePath, ''--json''], cwd = fileDirectory,
      timeout = 60 * 1000, uniqueKey = Some ''ide-flowtype-coverage-coverage'',
      detached = False, ignoreExitCode = True\<rparr>"

definition stop_call :: "string \<Rightarrow> string \<Rightarrow> exec_call" where
  \<comment> \<open>the invocation \<open>exec(executable, ['stop'], {...})\<close> of \<open>deactivate\<close>\<close>
  "stop_call executable rootDirectory =
     \<lparr>command = executable, args = [''stop''], cwd = rootDirectory,
      timeout = 60 * 1000, uniqueKey = None, detached = True, ignoreExitCode = True\<rparr>"

datatype lint_value = Messages "diagnostic list" | Null

definition record_call :: "exec_call \<Rightarrow> host \<Rightarrow> host" where
  "record_call c h = h\<lparr>exec_calls := exec_calls h @ [c]\<rparr>"

definition update_coverageView :: "CoverageObject \<Rightarrow> package \<Rightarrow> host \<Rightarrow> package \<times> host" where
  \<comment> \<open>\<open>if (this.coverageView) { this.coverageView.update(coverage) }\<close>, for a report of
      the declared type\<close>
  "update_coverageView coverage pkg h =
     (case coverageView pkg of
        None \<Rightarrow> (pkg, h)
      | Some view \<Rightarrow> (case update coverage view h of
                       (view', h') \<Rightarrow> (pkg\<lparr>coverageView := Some view'\<rparr>, h')))"

definition TypeError :: "string \<Rightarrow> string \<Rightarrow> js_error" where
  \<comment> \<open>the error of reading a property of \<open>undefined\<close> or \<open>null\<close>, in the words of the
      editor's engine\<close>
  "TypeError property receiver =
     Error (''Cannot read property '' @ [CHR 0x27] @ property @ [CHR 0x27] @ '' of '' @ receiver)
       None"

definition update_TypeError :: "json \<Rightarrow> js_error option" where
  \<comment> \<open>the error that the first statement of \<open>update\<close>, \<open>json.expressions.covered_count\<close>,
      throws for a value that is \<open>null\<close> or has nothing, or \<open>null\<close>, under \<open>expressions\<close>\<close>
  "update_TypeError json =
     (case json of
        JNull \<Rightarrow> Some (TypeError ''expressions'' ''null'')
      | JObject properties \<Rightarrow>
          (case map_of properties ''expressions'' of
             None \<Rightarrow> Some (TypeError ''covered_count'' ''undefined'')
           | Some JNull \<Rightarrow> Some (TypeError ''covered_count'' ''null'')
           | Some _ \<Rightarrow> None)
      | _ \<Rightarrow> Some (TypeError ''covered_count'' ''undefined''))"

definition update_untyped ::
  "env \<Rightarrow> json \<Rightarrow> CoverageView \<Rightarrow> host \<Rightarrow> js_error + CoverageView \<times> host" where
  \<comment> \<open>\<open>update\<close> for a value that is not of the declared type: it throws at its first
      statement or at the sum of the counts, before any effect, or goes on as \<open>update\<close>
      does, with the strings that the coercions give\<close>
  "update_untyped e json view h =
     (case update_TypeError json of
        Some err \<Rightarrow> Inl err
      | None \<Rightarrow>
          (case coerced e json of
             Inl err \<Rightarrow> Inl err
           | Inr (percent, covered, total') \<Rightarrow>
               (let view1 = view\<lparr>textContent := ''Flow Coverage: '' @ percent @ ''%''\<rparr>;
                    h1 = (case tooltipDisposable view1 of None \<Rightarrow> h | Some d \<Rightarrow> dispose d h);
                    view2 = view1\<lparr>classList :=
                              classList_remove ''ide-flowtype-coverage-hide'' (classList view1)\<rparr>;
                    (d, h2) = tooltips_add
                               (''Covered '' @ percent @ ''% ('' @ covered @ '' of '' @ total'
                                  @ '' expressions)<br>Click to toggle uncovered code'') h1
                in Inr (view2\<lparr>tooltipDisposable := Some d\<rparr>, h2))))"

definition update_coverageView_value ::
  "env \<Rightarrow> parsed \<Rightarrow> package \<Rightarrow> host \<Rightarrow> js_error + package \<times> host" where
  \<comment> \<open>\<open>if (this.coverageView) { this.coverageView.update(coverage) }\<close>, for any parsed value\<close>
  "update_coverageView_value e coverage pkg h =
     (case coverage of
        Report report \<Rightarrow> Inr (update_coverageView report pkg h)
      | Other json \<Rightarrow>
          (case coverageView pkg of
             None \<Rightarrow> Inr (pkg, h)
           | Some view \<Rightarrow>
               (case update_untyped e json view h of
                  Inl err \<Rightarrow> Inl err
                | Inr (view', h') \<Rightarrow> Inr (pkg\<lparr>coverageView := Some view'\<rparr>, h'))))"

definition messages_for :: "env \<Rightarrow> parsed \<Rightarrow> js_error + diagnostic list" where
  \<comment> \<open>\<open>toCoverageLinterMessages(coverage)\<close>, for any parsed value\<close>
  "messages_for e coverage =
     (case coverage of
        Report report \<Rightarrow> Inr (toCoverageLinterMessages e report)
      | Other json \<Rightarrow> untyped_messages e json)"

text \<open>
  The linter's \<open>lint\<close>. A call that returns gives \<open>Some\<close> of its outcome (a thrown error
  on the left, the returned value on the right) with the state it leaves; a call that
  retries for ever gives \<open>None\<close>. The parsed value is cached before the view's \<open>update\<close>
  runs, so an error that \<open>update\<close> or \<open>toCoverageLinterMessages\<close> throws leaves the cache
  written.
\<close>

partial_function (option) lint ::
  "env \<Rightarrow> TextEditor \<Rightarrow> package \<Rightarrow> host \<Rightarrow> ((js_error + lint_value) \<times> package \<times> host) option"
where
  "lint e textEditor pkg h =
     (let filePath = getPath textEditor;
          fileDirectory = Path_dirname e filePath;
          configFile = (if onlyIfAppropriate pkg
                        then findCachedAsync e fileDirectory ''.flowconfig'' else None)
      in if onlyIfAppropriate pkg \<and> \<not> truthy configFile then Some (Inr (Messages []), pkg, h)
         else
           (let executable = getExecutablePath e pkg fileDirectory;
                call = coverage_call executable filePath fileDirectory;
                h1 = record_call call h
            in case exec e (exec_calls h) call of
                 Resolved None \<Rightarrow> Some (Inr Null, pkg, h1)
               | Resolved (Some result) \<Rightarrow>
                   (case JSON_parse e result of
                      Inl err \<Rightarrow> Some (Inl err, pkg, h1)
                    | Inr coverage \<Rightarrow>
                        (case update_coverageView_value e coverage
                                (pkg\<lparr>coverages := (coverages pkg)(textEditor \<mapsto> coverage)\<rparr>) h1 of
                           Inl err \<Rightarrow>
                             Some (Inl err,
                                   pkg\<lparr>coverages := (coverages pkg)(textEditor \<mapsto> coverage)\<rparr>,
                                   h1)
                         | Inr (pkg2, h2) \<Rightarrow>
                             if showUncovered pkg2
                             then (case messages_for e coverage of
                                     Inl err \<Rightarrow> Some (Inl err, pkg2, h2)
                                   | Inr ms \<Rightarrow> Some (Inr (Messages ms), pkg2, h2))
                             else Some (Inr (Messages []), pkg2, h2)))
               | Rejected error \<Rightarrow>
                   (let pkg1 = (if indexOf (message error) (INIT_MESSAGE e) \<noteq> - 1
                                   \<and> truthy configFile
                                then (case configFile of
                                        None \<Rightarrow> pkg
                                      | Some cf \<Rightarrow>
                                          pkg\<lparr>spawnedServers :=
                                                Set_add (Path_dirname e cf) (spawnedServers pkg)\<rparr>)
                                else pkg)
                    in if indexOf (message error) (INIT_MESSAGE e) \<noteq> - 1
                          \<or> indexOf (message error) (RECHECKING_MESSAGE e) \<noteq> - 1
                       then lint e textEditor pkg1 h1
                       else if code error = Some ''ENOENT''
                       then Some (Inl (Error ''Unable to find `flow` executable.'' None), pkg1, h1)
                       else Some (Inl error, pkg1, h1))))"

declare lint.simps [code]

definition stop_executable :: "env \<Rightarrow> package \<Rightarrow> string \<Rightarrow> string" where
  \<comment> \<open>the local \<open>executable\<close> of \<open>deactivate\<close>\<close>
  "stop_executable e pkg rootDirectory =
     (if executablePath pkg \<noteq> [] then executablePath pkg
      else (case findCached e rootDirectory defaultFlowBinLocation of
              Some p \<Rightarrow> if p \<noteq> [] then p else ''flow''
            | None \<Rightarrow> ''flow''))"

text \<open>
  \<open>deactivate\<close> asks for one \<open>stop\<close> invocation for each recorded directory, in the order
  of insertion, and discards what becomes of each. The disposal of the subscriptions has
  no part in the model.
\<close>

definition deactivate :: "env \<Rightarrow> package \<Rightarrow> host \<Rightarrow> host" where
  "deactivate e pkg h =
     foldl (\<lambda>h rootDirectory.
              record_call (stop_call (stop_executable e pkg rootDirectory) rootDirectory) h)
       h (spawnedServers pkg)"

definition deactivate_after ::
  "env \<Rightarrow> (js_error + lint_value) \<times> package \<times> host \<Rightarrow> host" where
  \<comment> \<open>deactivation in the state that a call of \<open>lint\<close> has left\<close>
  "deactivate_after e y = deactivate e (fst (snd y)) (snd (snd y))"

subsection \<open>Names for the parts of a lint call\<close>

definition lint_configFile :: "env \<Rightarrow> TextEditor \<Rightarrow> package \<Rightarrow> string option" where
  \<comment> \<open>the local \<open>configFile\<close> of \<open>lint\<close>\<close>
  "lint_configFile e textEditor pkg =
     (if onlyIfAppropriate pkg
      then findCachedAsync e (Path_dirname e (getPath textEditor)) ''.flowconfig'' else None)"

definition inappropriate :: "env \<Rightarrow> TextEditor \<Rightarrow> package \<Rightarrow> bool" where
  \<comment> \<open>the condition under which \<open>lint\<close> returns before it invokes the checker\<close>
  "inappropriate e textEditor pkg =
     (onlyIfAppropriate pkg \<and> \<not> truthy (lint_configFile e textEditor pkg))"

definition lint_call :: "env \<Rightarrow> TextEditor \<Rightarrow> package \<Rightarrow> exec_call" where
  \<comment> \<open>the invocation that \<open>lint\<close> issues\<close>
  "lint_call e textEditor pkg =
     coverage_call (getExecutablePath e pkg (Path_dirname e (getPath textEditor)))
       (getPath textEditor) (Path_dirname e (getPath textEditor))"

definition has_init_marker :: "env \<Rightarrow> js_error \<Rightarrow> bool" where
  "has_init_marker e error = (indexOf (message error) (INIT_MESSAGE e) \<noteq> - 1)"

definition has_rechecking_marker :: "env \<Rightarrow> js_error \<Rightarrow> bool" where
  "has_rechecking_marker e error = (indexOf (message error) (RECHECKING_MESSAGE e) \<noteq> - 1)"

definition note_spawned :: "env \<Rightarrow> TextEditor \<Rightarrow> package \<Rightarrow> js_error \<Rightarrow> package" where
  \<comment> \<open>the package after the first statement of the \<open>catch\<close> block of \<open>lint\<close>\<close>
  "note_spawned e textEditor pkg error =
     (if has_init_marker e error \<and> truthy (lint_configFile e textEditor pkg)
      then (case lint_configFile e textEditor pkg of
              None \<Rightarrow> pkg
            | Some cf \<Rightarrow>
                pkg\<lparr>spawnedServers := Set_add (Path_dirname e cf) (spawnedServers pkg)\<rparr>)
      else pkg)"

definition not_found_error :: js_error where
  "not_found_error = Error ''Unable to find `flow` executable.'' None"

definition after_parse ::
  "env \<Rightarrow> TextEditor \<Rightarrow> package \<Rightarrow> host \<Rightarrow> parsed
     \<Rightarrow> (js_error + lint_value) \<times> package \<times> host" where
  \<comment> \<open>the outcome of \<open>lint\<close> from the statement that caches the parsed value on\<close>
  "after_parse e textEditor pkg h1 coverage =
     (case update_coverageView_value e coverage
             (pkg\<lparr>coverages := (coverages pkg)(textEditor \<mapsto> coverage)\<rparr>) h1 of
        Inl err \<Rightarrow>
          (Inl err, pkg\<lparr>coverages := (coverages pkg)(textEditor \<mapsto> coverage)\<rparr>, h1)
      | Inr (pkg2, h2) \<Rightarrow>
          if showUncovered pkg2
          then (case messages_for e coverage of
                  Inl err \<Rightarrow> (Inl err, pkg2, h2)
                | Inr ms \<Rightarrow> (Inr (Messages ms), pkg2, h2))
          else (Inr (Messages []), pkg2, h2))"

definition cached_after ::
  "TextEditor \<Rightarrow> (js_error + lint_value) \<times> package \<times> host \<Rightarrow> parsed option" where
  \<comment> \<open>the cache entry of a document in the state that a call of \<open>lint\<close> has left\<close>
  "cached_after textEditor y = coverages (fst (snd y)) textEditor"

section \<open>An example project\<close>

text \<open>
  A project at \<open>/proj\<close> with a \<open>.flowconfig\<close> and no local checker binary, a project at
  \<open>/app\<close> with a local checker binary and no \<open>.flowconfig\<close>, one open file, and a checker
  whose outcomes are scripted: the \<open>n\<close>-th invocation gets the \<open>n\<close>-th
  outcome of the script, and an invocation beyond the script is superseded.
\<close>

definition demo_dirname :: "string \<Rightarrow> string" where
  "demo_dirname p = rev (tl (dropWhile (\<lambda>c. c \<noteq> CHR ''/'') (rev p)))"

definition demo_report :: CoverageObject where
  "demo_report =
     \<lparr>expressions = \<lparr>covered_count = 3, uncovered_count = 1\<rparr>,
      uncoveredLocations =
        [\<lparr>region_start = \<lparr>line = 4, column = 7\<rparr>, region_end = \<lparr>line = 4, column = 12\<rparr>\<rparr>]\<rparr>"

definition demo_output :: string where
  "demo_output = ''{expressions:{covered_count:3,uncovered_count:1},uncoveredLocations:[...]}''"

definition script :: "exec_outcome list \<Rightarrow> exec_call list \<Rightarrow> exec_call \<Rightarrow> exec_outcome" where
  "script outcomes calls call =
     (if length calls < length outcomes then outcomes ! length calls else Resolved None)"

definition demo_env :: "exec_outcome list \<Rightarrow> env" where
  "demo_env outcomes =
     \<lparr>INIT_MESSAGE = ''flow server'',
      RECHECKING_MESSAGE = ''flow is'',
      findCached = (\<lambda>directory name.
         if name = ''.flowconfig'' \<and> (directory = ''/proj/src'' \<or> directory = ''/proj'')
         then Some ''/proj/.flowconfig''
         else if name = ''node_modules/.bin/flow'' \<and> directory = ''/app/src''
         then Some ''/app/node_modules/.bin/flow''
         else None),
      Path_dirname = demo_dirname,
      exec = script outcomes,
      JSON_parse = (\<lambda>text. if text = demo_output then Inr (Report demo_report)
                           else if text = ''{}'' then Inr (Other (JObject []))
                           else if text = ''null'' then Inr (Other JNull)
                           else Inl (Error ''Unexpected token'' None)),
      uncovered_severity = Info,
      coerced = (\<lambda>json. Inr (''NaN'', ''undefined'', ''NaN'')),
      untyped_messages = (\<lambda>json. Inl (TypeError ''map'' ''undefined''))\<rparr>"

definition demo_view :: CoverageView where
  "demo_view = \<lparr>textContent = [], classList = [''inline-block''], tooltipDisposable = None\<rparr>"

definition demo_package :: package where
  "demo_package =
     \<lparr>executablePath = [], onlyIfAppropriate = True, showUncovered = True,
      coverages = Map.empty, coverageView = Some demo_view, spawnedServers = []\<rparr>"

definition demo_host :: host where
  "demo_host = \<lparr>exec_calls = [], tooltips = []\<rparr>"

definition demo_editor :: TextEditor where
  "demo_editor = TextEditor 1 ''/proj/src/a.js''"

definition cached_package :: package where
  \<comment> \<open>the example package after an earlier call has cached a report for the open file\<close>
  "cached_package = demo_package\<lparr>coverages := [demo_editor \<mapsto> Report demo_report]\<rparr>"

definition starting_error :: js_error where
  "starting_error = Error ''Launching flow server for /proj'' None"

definition busy_path_error :: js_error where
  \<comment> \<open>the failure to spawn a binary whose path has the words of a marker\<close>
  "busy_path_error = Error ''spawn /opt/flow server/bin/flow ENOENT'' (Some ''ENOENT'')"

definition missing_error :: js_error where
  "missing_error = Error ''spawn flow ENOENT'' (Some ''ENOENT'')"

definition timeout_error :: js_error where
  "timeout_error = Error ''Process execution timed out'' None"

section \<open>Rounding to a double, and the percentage\<close>

lemma pow2_bitlen_lower: "0 < p \<Longrightarrow> (2::rat) powi (bitlen p - 1) \<le> of_int p"
proof -
  assume p: "0 < p"
  then have b: "1 \<le> bitlen p" by (simp add: bitlen_alt_def)
  from bitlen_bounds[OF p] have "2 ^ nat (bitlen p - 1) \<le> p" by simp
  then have "(of_int (2 ^ nat (bitlen p - 1)) :: rat) \<le> of_int p" by (simp only: of_int_le_iff)
  moreover have "(2::rat) powi (bitlen p - 1) = 2 ^ nat (bitlen p - 1)"
    using b by (simp add: power_int_def)
  ultimately show ?thesis by simp
qed

lemma pow2_bitlen_upper: "0 < p \<Longrightarrow> of_int p < (2::rat) powi (bitlen p)"
proof -
  assume p: "0 < p"
  from bitlen_bounds[OF p] have "p < 2 ^ nat (bitlen p)" by simp
  then have "(of_int p :: rat) < of_int (2 ^ nat (bitlen p))" by (simp only: of_int_less_iff)
  moreover have "(2::rat) powi (bitlen p) = 2 ^ nat (bitlen p)"
    using bitlen_nonneg[of p] by (simp add: power_int_def)
  ultimately show ?thesis by simp
qed

lemma ilog2_bounds:
  assumes x: "0 < x"
  shows "2 powi ilog2 x \<le> x" and "x < 2 powi (ilog2 x + 1)"
proof -
  obtain p q where pq: "quotient_of x = (p, q)" by (cases "quotient_of x")
  then have q: "0 < q" and xe: "x = of_int p / of_int q"
    using quotient_of_denom_pos quotient_of_div by blast+
  with x have p: "0 < p" by (simp add: zero_less_divide_iff)
  let ?d = "bitlen p - bitlen q"
  have lo: "(2::rat) powi (?d - 1) < x"
  proof -
    have "(2::rat) powi (?d - 1) = 2 powi (bitlen p - 1) / 2 powi bitlen q"
      by (simp add: power_int_diff)
    also have "\<dots> \<le> of_int p / 2 powi bitlen q"
      using pow2_bitlen_lower[OF p] by (simp add: divide_right_mono)
    also have "\<dots> < of_int p / of_int q"
      using pow2_bitlen_upper[OF q] p q by (simp add: divide_strict_left_mono)
    finally show ?thesis by (simp add: xe)
  qed
  have hi: "x < (2::rat) powi (?d + 1)"
  proof -
    have "x = of_int p / of_int q" by (rule xe)
    also have "\<dots> < 2 powi bitlen p / of_int q"
      using pow2_bitlen_upper[OF p] q by (simp add: divide_strict_right_mono)
    also have "\<dots> \<le> 2 powi bitlen p / 2 powi (bitlen q - 1)"
      using pow2_bitlen_lower[OF q] q by (simp add: divide_left_mono)
    also have "\<dots> = 2 powi (?d + 1)"
      by (simp add: power_int_diff power_int_add)
    finally show ?thesis .
  qed
  show "2 powi ilog2 x \<le> x"
    using lo by (simp add: ilog2_def pq Let_def less_imp_le)
  show "x < 2 powi (ilog2 x + 1)"
    using hi by (simp add: ilog2_def pq Let_def not_le)
qed

lemma round_half_even_error: "\<bar>of_int (round_half_even q) - q\<bar> \<le> 1 / 2"
proof -
  have "of_int \<lfloor>q\<rfloor> \<le> q" "q < of_int \<lfloor>q\<rfloor> + 1" by linarith+
  then show ?thesis
    by (auto simp: round_half_even_def Let_def abs_le_iff)
qed

lemma round_half_even_of_int: "round_half_even (of_int k) = k"
  by (simp add: round_half_even_def)

lemma fl_error: "\<bar>fl x - x\<bar> \<le> \<bar>x\<bar> / 2 ^ 53"
proof (cases "x = 0")
  case True
  then show ?thesis by (simp add: fl_def)
next
  case False
  define u :: rat where "u = 2 powi (ilog2 \<bar>x\<bar> - 52)"
  define m where "m = round_half_even (\<bar>x\<bar> / u)"
  have u: "0 < u" by (simp add: u_def)
  have "u * 2 ^ 52 = 2 powi ilog2 \<bar>x\<bar>"
    by (simp add: u_def power_int_diff)
  also have "\<dots> \<le> \<bar>x\<bar>" using False by (intro ilog2_bounds) simp
  finally have ux: "u \<le> \<bar>x\<bar> / 2 ^ 52" by (simp add: pos_le_divide_eq)
  have flx: "fl x = sgn x * (of_int m * u)"
    using False by (simp add: fl_def Let_def u_def m_def)
  have "x = sgn x * \<bar>x\<bar>" by (simp add: sgn_mult_abs)
  then have "fl x - x = sgn x * (of_int m * u - \<bar>x\<bar>)"
    by (simp add: flx right_diff_distrib)
  then have "\<bar>fl x - x\<bar> = \<bar>of_int m * u - \<bar>x\<bar>\<bar>"
    using False by (simp add: abs_mult abs_sgn_eq)
  also have "of_int m * u - \<bar>x\<bar> = (of_int m - \<bar>x\<bar> / u) * u"
    using u by (simp add: left_diff_distrib)
  also have "\<bar>\<dots>\<bar> = \<bar>of_int m - \<bar>x\<bar> / u\<bar> * u"
    using u by (simp add: abs_mult)
  also have "\<dots> \<le> (1 / 2) * u"
    using round_half_even_error[of "\<bar>x\<bar> / u"] u unfolding m_def
    by (intro mult_right_mono) simp_all
  also have "\<dots> \<le> (1 / 2) * (\<bar>x\<bar> / 2 ^ 52)"
    using ux by simp
  also have "\<dots> = \<bar>x\<bar> / 2 ^ 53" by simp
  finally show ?thesis .
qed

lemma fl_of_nat: 
  assumes "n < 2 ^ 53"
  shows "fl (of_nat n) = of_nat n"
proof (cases "n = 0")
  case True
  then show ?thesis by (simp add: fl_def)
next
  case False
  define x :: rat where "x = of_nat n"
  have x: "0 < x" using False by (simp add: x_def)
  define e where "e = ilog2 x"
  have "2 powi e \<le> x" unfolding e_def by (rule ilog2_bounds(1)[OF x])
  also have "x < 2 ^ 53" using assms unfolding x_def
    by (metis of_nat_less_iff of_nat_numeral of_nat_power)
  finally have "(2::rat) powi e < 2 powi 53" by simp
  then have "e < 53" by (rule power_int_le_imp_less_exp[rotated]) simp_all
  then have e: "e \<le> 52" by simp
  define k where "k = nat (52 - e)"
  have u: "(2::rat) powi (e - 52) = 1 / 2 ^ k"
    using e by (simp add: k_def power_int_def field_simps)
  have "x / (1 / 2 ^ k) = of_int (int n * 2 ^ k)" by (simp add: x_def)
  then have "round_half_even (x / (1 / 2 ^ k)) = int n * 2 ^ k"
    by (simp only: round_half_even_of_int)
  then show ?thesis
    using x u by (simp add: fl_def Let_def e_def[symmetric] x_def[symmetric])
qed


lemma fl_ratio_error:
  fixes r :: rat
  assumes r: "0 \<le> r" "r \<le> 1"
  shows "\<bar>fl (fl r * 100) - 100 * r\<bar> \<le> 201 / 2 ^ 53"
proof -
  define y where "y = fl r"
  have yr: "\<bar>y - r\<bar> \<le> 1 / 2 ^ 53"
  proof -
    have "\<bar>y - r\<bar> \<le> \<bar>r\<bar> / 2 ^ 53" unfolding y_def by (rule fl_error)
    also have "\<dots> \<le> 1 / 2 ^ 53" using r by (simp add: divide_right_mono)
    finally show ?thesis .
  qed
  then have y1: "\<bar>y\<bar> \<le> 1 + 1 / 2 ^ 53" using r by linarith
  have "\<bar>fl (y * 100) - y * 100\<bar> \<le> \<bar>y * 100\<bar> / 2 ^ 53" by (rule fl_error)
  also have "\<dots> \<le> ((1 + 1 / 2 ^ 53) * 100) / 2 ^ 53"
    using y1 by (intro divide_right_mono) (simp_all add: abs_mult)
  also have "\<dots> \<le> 101 / 2 ^ 53" by simp
  finally have a: "\<bar>fl (y * 100) - y * 100\<bar> \<le> 101 / 2 ^ 53" .
  have b: "\<bar>y * 100 - 100 * r\<bar> \<le> 100 / 2 ^ 53"
  proof -
    have "\<bar>y * 100 - 100 * r\<bar> = 100 * \<bar>y - r\<bar>" by (simp add: abs_if)
    also have "\<dots> \<le> 100 * (1 / 2 ^ 53)" using yr by (intro mult_left_mono) simp_all
    finally show ?thesis by simp
  qed
  have "\<bar>fl (y * 100) - 100 * r\<bar> \<le> \<bar>fl (y * 100) - y * 100\<bar> + \<bar>y * 100 - 100 * r\<bar>"
    by linarith
  also have "\<dots> \<le> 101 / 2 ^ 53 + 100 / 2 ^ 53" using a b by (rule add_mono)
  finally show ?thesis by (simp add: y_def)
qed

lemma Math_round_nearest:
  fixes z :: rat and c t :: nat
  assumes t: "0 < t" "t < 2 ^ 44"
    and z: "\<bar>z - 100 * of_nat c / of_nat t\<bar> \<le> 201 / 2 ^ 53"
  shows "\<bar>Math_round z - 100 * of_nat c / of_nat t\<bar> \<le> 1 / 2"
proof -
  define v :: rat where "v = 100 * of_nat c / of_nat t"
  define m where "m = \<lfloor>z + 1 / 2\<rfloor>"
  define T :: rat where "T = of_nat t"
  have T: "0 < T" using t by (simp add: T_def)
  have "T < 2 ^ 44" using t(2) unfolding T_def
    by (metis of_nat_less_iff of_nat_numeral of_nat_power)
  then have "201 / 2 ^ 53 * (2 * T) < 201 / 2 ^ 53 * (2 * 2 ^ 44)"
    by (intro mult_strict_left_mono) simp_all
  also have "\<dots> < (1::rat)" by simp
  finally have small: "201 / 2 ^ 53 * (2 * T) < 1" .
  have vT: "v * (2 * T) = of_int (200 * int c)"
    using T by (simp add: v_def T_def)
  have m1: "of_int m \<le> z + 1 / 2" and m2: "z + 1 / 2 < of_int m + 1"
    unfolding m_def by linarith+
  have zv: "\<bar>z - v\<bar> \<le> 201 / 2 ^ 53" using z by (simp add: v_def)
  have lower: "of_int m - 1 / 2 \<le> v"
  proof (rule ccontr)
    assume "\<not> of_int m - 1 / 2 \<le> v"
    then have lt: "v < of_int m - 1 / 2" by simp
    define N where "N = (2 * m - 1) * int t - 200 * int c"
    have N: "of_int N = (of_int m - 1 / 2 - v) * (2 * T)"
      using vT by (simp add: N_def T_def algebra_simps)
    have "0 < (of_int m - 1 / 2 - v) * (2 * T)" using lt T by simp
    then have "(0::rat) < of_int N" by (simp only: N)
    then have "1 \<le> N" by simp
    then have "(1::rat) \<le> of_int N" by (simp only: of_int_1_le_iff)
    also have "\<dots> = (of_int m - 1 / 2 - v) * (2 * T)" by (rule N)
    also have "\<dots> \<le> 201 / 2 ^ 53 * (2 * T)"
      using m1 zv T by (intro mult_right_mono) linarith+
    finally show False using small by simp
  qed
  have upper: "v \<le> of_int m + 1 / 2"
  proof (rule ccontr)
    assume "\<not> v \<le> of_int m + 1 / 2"
    then have lt: "of_int m + 1 / 2 < v" by simp
    define N where "N = 200 * int c - (2 * m + 1) * int t"
    have N: "of_int N = (v - (of_int m + 1 / 2)) * (2 * T)"
      using vT by (simp add: N_def T_def algebra_simps)
    have "0 < (v - (of_int m + 1 / 2)) * (2 * T)" using lt T by simp
    then have "(0::rat) < of_int N" by (simp only: N)
    then have "1 \<le> N" by simp
    then have "(1::rat) \<le> of_int N" by (simp only: of_int_1_le_iff)
    also have "\<dots> = (v - (of_int m + 1 / 2)) * (2 * T)" by (rule N)
    also have "\<dots> \<le> 201 / 2 ^ 53 * (2 * T)"
      using m2 zv T by (intro mult_right_mono) linarith+
    finally show False using small by simp
  qed
  from lower upper show ?thesis
    unfolding v_def[symmetric] Math_round_def m_def[symmetric] by linarith
qed

lemma nearest_unique:
  fixes c t :: nat and m :: int
  assumes t: "0 < t"
    and near: "\<bar>of_int m - 100 * of_nat c / of_nat t\<bar> \<le> (1 / 2 :: rat)"
    and notie: "(200 * c + t) mod (2 * t) \<noteq> 0"
  shows "m = int ((200 * c + t) div (2 * t))"
proof -
  define a where "a = 200 * int c + int t"
  define b where "b = 2 * int t"
  have b: "0 < b" using t by (simp add: b_def)
  have T: "(0::rat) < of_nat t" using t by simp
  from near have "of_int m - 1 / 2 \<le> 100 * of_nat c / (of_nat t :: rat)"
    and "100 * of_nat c / (of_nat t :: rat) \<le> of_int m + 1 / 2"
    by linarith+
  then have "(of_int m - 1 / 2) * (2 * of_nat t) \<le> (200 * of_nat c :: rat)"
    and "(200 * of_nat c :: rat) \<le> (of_int m + 1 / 2) * (2 * of_nat t)"
    using T by (simp_all add: field_simps)
  then have "(of_int (m * b) :: rat) \<le> of_int a" and "(of_int a :: rat) \<le> of_int ((m + 1) * b)"
    by (simp_all add: a_def b_def algebra_simps)
  then have le1: "m * b \<le> a" and le2: "a \<le> (m + 1) * b"
    by (simp_all only: of_int_le_iff)
  have "a mod b \<noteq> 0"
  proof -
    have "int ((200 * c + t) mod (2 * t)) = a mod b"
      by (simp add: a_def b_def zmod_int)
    with notie show ?thesis by (metis of_nat_eq_0_iff)
  qed
  then have "a \<noteq> (m + 1) * b" by auto
  with le2 have lt2: "a < (m + 1) * b" by simp
  have "a div b = m"
    using le1 lt2 b by (intro int_div_pos_eq[where r = "a - m * b"]) (simp_all add: algebra_simps)
  moreover have "int ((200 * c + t) div (2 * t)) = a div b"
    by (simp add: a_def b_def zdiv_int)
  ultimately show ?thesis by simp
qed


lemma number_of_exact: "n < 2 ^ 53 \<Longrightarrow> number_of n = of_nat n"
  by (simp add: number_of_def fl_of_nat)

lemma percentage_zero:
  "percentage \<lparr>expressions = \<lparr>covered_count = 0, uncovered_count = 0\<rparr>, uncoveredLocations = rs\<rparr> = 0"
  by (simp add: percentage_def number_of_def percent_of_def fl_def)

lemma percentage_eq:
  assumes "0 < c + u" "c + u < 2 ^ 44"
  shows "percentage \<lparr>expressions = \<lparr>covered_count = c, uncovered_count = u\<rparr>,
                     uncoveredLocations = rs\<rparr>
         = Math_round (fl (fl (of_nat c / of_nat (c + u)) * 100))"
proof -
  have "(2::nat) ^ 44 < 2 ^ 53" by simp
  with assms have "c < 2 ^ 53" "u < 2 ^ 53" "c + u < 2 ^ 53" by linarith+
  then have "number_of c = of_nat c" "number_of u = of_nat u"
    "fl (of_nat c + of_nat u) = of_nat (c + u)"
    using number_of_exact[of c] number_of_exact[of u] fl_of_nat[of "c + u"] by simp_all
  then show ?thesis
    using assms(1) by (auto simp add: percentage_def percent_of_def simp del: of_nat_add)
qed

lemma percentage_nearest:
  assumes "0 < c + u" "c + u < 2 ^ 44"
  shows "\<bar>percentage \<lparr>expressions = \<lparr>covered_count = c, uncovered_count = u\<rparr>,
                      uncoveredLocations = rs\<rparr>
          - 100 * of_nat c / of_nat (c + u)\<bar> \<le> 1 / 2"
proof -
  have "(0::rat) \<le> of_nat c / of_nat (c + u)" "of_nat c / of_nat (c + u) \<le> (1::rat)"
    using assms(1) by (simp_all add: divide_le_eq)
  from fl_ratio_error[OF this]
  have "\<bar>fl (fl (of_nat c / of_nat (c + u)) * 100) - 100 * of_nat c / of_nat (c + u)\<bar>
          \<le> 201 / 2 ^ 53"
    by simp
  from Math_round_nearest[OF assms this] show ?thesis
    by (simp only: percentage_eq[OF assms])
qed

lemma percentage_integral:
  assumes "0 < c + u" "c + u < 2 ^ 44"
  shows "\<exists>m. percentage \<lparr>expressions = \<lparr>covered_count = c, uncovered_count = u\<rparr>,
                          uncoveredLocations = rs\<rparr> = of_int m"
  unfolding percentage_eq[OF assms] Math_round_def by blast

lemma percentage_no_tie:
  assumes "0 < c + u" "c + u < 2 ^ 44" "(200 * c + (c + u)) mod (2 * (c + u)) \<noteq> 0"
  shows "percentage \<lparr>expressions = \<lparr>covered_count = c, uncovered_count = u\<rparr>,
                     uncoveredLocations = rs\<rparr>
         = of_nat ((200 * c + (c + u)) div (2 * (c + u)))"
proof -
  let ?p = "percentage \<lparr>expressions = \<lparr>covered_count = c, uncovered_count = u\<rparr>,
                         uncoveredLocations = rs\<rparr>"
  obtain m where m: "?p = of_int m" using percentage_integral[OF assms(1,2)] by blast
  have "\<bar>of_int m - 100 * of_nat c / of_nat (c + u)\<bar> \<le> (1 / 2 :: rat)"
    using percentage_nearest[OF assms(1,2), of rs] by (simp only: m)
  from nearest_unique[OF assms(1) this assms(3)] show ?thesis
    by (simp only: m of_int_of_nat_eq)
qed

lemma percentage_range:
  assumes "0 < c + u" "c + u < 2 ^ 44"
  shows "\<exists>p\<le>100. percentage \<lparr>expressions = \<lparr>covered_count = c, uncovered_count = u\<rparr>,
                              uncoveredLocations = rs\<rparr> = of_nat p"
proof -
  let ?p = "percentage \<lparr>expressions = \<lparr>covered_count = c, uncovered_count = u\<rparr>,
                         uncoveredLocations = rs\<rparr>"
  obtain m where m: "?p = of_int m" using percentage_integral[OF assms] by blast
  have near: "\<bar>of_int m - 100 * of_nat c / of_nat (c + u)\<bar> \<le> (1 / 2 :: rat)"
    using percentage_nearest[OF assms, of rs] by (simp only: m)
  have v: "(0::rat) \<le> 100 * of_nat c / of_nat (c + u)" "100 * of_nat c / of_nat (c + u) \<le> (100::rat)"
    using assms(1) by (simp_all add: divide_le_eq)
  from near v have "- 1 / 2 \<le> (of_int m :: rat)" "(of_int m :: rat) \<le> 100 + 1 / 2" by linarith+
  then have "(of_int (- 1) :: rat) < of_int m" "(of_int m :: rat) < of_int 101" by simp_all
  then have "- 1 < m" "m < 101" by (simp_all only: of_int_less_iff)
  then have "nat m \<le> 100" "of_int m = (of_nat (nat m) :: rat)" by simp_all
  with m show ?thesis by metis
qed

text \<open>
  When the exact quotient is half-way between two integers, either neighbour is a nearest
  integer, and the double arithmetic decides which: 23 of 40 gives 57 (the double nearest
  to 23/40 lies below it, and so does its product with 100), 1 of 200 gives 1.
\<close>

lemma percentage_tie_down:
  "percentage \<lparr>expressions = \<lparr>covered_count = 23, uncovered_count = 17\<rparr>,
               uncoveredLocations = []\<rparr> = 57"
  by code_simp

lemma percentage_tie_up:
  "percentage \<lparr>expressions = \<lparr>covered_count = 1, uncovered_count = 199\<rparr>,
               uncoveredLocations = []\<rparr> = 1"
  by code_simp

text \<open>
  The value of \<open>fl\<close> at a given rational, from its binary exponent and the integer nearest
  to its scaled significand; and \<open>Math.round\<close> of an exact quotient.
\<close>

lemma Math_round_quotient:
  assumes "0 < t"
  shows "Math_round (100 * of_nat c / of_nat t) = of_nat ((200 * c + t) div (2 * t))"
proof -
  have "100 * of_nat c / of_nat t + 1 / 2 = (of_nat (200 * c + t) / of_nat (2 * t) :: rat)"
    using assms by (simp add: field_simps)
  then have "\<lfloor>100 * of_nat c / of_nat t + 1 / 2 :: rat\<rfloor> = int ((200 * c + t) div (2 * t))"
    by (simp only: floor_divide_of_nat_eq)
  then show ?thesis by (simp add: Math_round_def)
qed

lemma pow2_powi_less_imp: "(2::rat) powi a < 2 powi b \<Longrightarrow> a < b"
proof (rule ccontr)
  assume l: "(2::rat) powi a < 2 powi b" and "\<not> a < b"
  then have "b \<le> a" by simp
  then have "(2::rat) powi b \<le> 2 powi a" by (intro power_int_increasing) simp_all
  with l show False by simp
qed

lemma ilog2_unique:
  assumes "0 < x" "2 powi k \<le> x" "x < 2 powi (k + 1)"
  shows "ilog2 x = k"
proof -
  have "(2::rat) powi ilog2 x \<le> x" "x < 2 powi (ilog2 x + 1)"
    using ilog2_bounds[OF assms(1)] by simp_all
  with assms have "(2::rat) powi ilog2 x < 2 powi (k + 1)" "(2::rat) powi k < 2 powi (ilog2 x + 1)"
    by linarith+
  then have "ilog2 x < k + 1" "k < ilog2 x + 1"
    by (auto dest: pow2_powi_less_imp)
  then show ?thesis by simp
qed

lemma round_half_even_unique:
  assumes "of_int m - 1 / 2 < q" "q < of_int m + 1 / 2"
  shows "round_half_even q = m"
proof -
  have "\<lfloor>q\<rfloor> = m \<or> \<lfloor>q\<rfloor> = m - 1"
  proof -
    have "m - 1 \<le> \<lfloor>q\<rfloor>" using assms(1) by (intro iffD2[OF le_floor_iff]) simp
    moreover have "\<lfloor>q\<rfloor> < m + 1" using assms(2) by (intro iffD2[OF floor_less_iff]) simp
    ultimately show ?thesis by linarith
  qed
  then show ?thesis
  proof
    assume f: "\<lfloor>q\<rfloor> = m"
    with assms(2) have "q - of_int \<lfloor>q\<rfloor> < 1 / 2" by simp
    then show ?thesis by (simp add: round_half_even_def Let_def f)
  next
    assume f: "\<lfloor>q\<rfloor> = m - 1"
    with assms(1) have "1 / 2 < q - of_int \<lfloor>q\<rfloor>" by simp
    then show ?thesis by (simp add: round_half_even_def Let_def f)
  qed
qed

lemma fl_value:
  assumes "0 < x" "2 powi k \<le> x" "x < 2 powi (k + 1)"
    and "of_int m - 1 / 2 < x / 2 powi (k - 52)" "x / 2 powi (k - 52) < of_int m + 1 / 2"
  shows "fl x = of_int m * 2 powi (k - 52)"
proof -
  have "ilog2 \<bar>x\<bar> = k" using assms(1-3) by (simp add: ilog2_unique)
  moreover have "round_half_even (\<bar>x\<bar> / 2 powi (k - 52)) = m"
    using assms(1,4,5) by (simp add: round_half_even_unique)
  ultimately show ?thesis using assms(1) by (simp add: fl_def Let_def)
qed

lemma big_quotient:
  "fl (35925729692763 / 51691697399659) = 6260003482044989 / 2 ^ 53"
proof -
  let ?x = "35925729692763 / 51691697399659 :: rat"
  have u: "(2::rat) powi (- 1 - 52) = 1 / 2 ^ 53" by (simp add: power_int_minus)
  have "0 < ?x" by simp
  moreover have "2 powi (- 1) \<le> ?x" by (simp add: power_int_minus)
  moreover have "?x < 2 powi (- 1 + 1)" by simp
  moreover have "of_int 6260003482044989 - 1 / 2 < ?x / 2 powi (- 1 - 52)"
    unfolding u by simp
  moreover have "?x / 2 powi (- 1 - 52) < of_int 6260003482044989 + 1 / 2"
    unfolding u by simp
  ultimately have "fl ?x = of_int 6260003482044989 * 2 powi (- 1 - 52)"
    by (rule fl_value)
  then show ?thesis unfolding u by simp
qed

lemma big_product:
  "fl (6260003482044989 / 2 ^ 53 * 100) = 139 / 2"
proof -
  let ?x = "6260003482044989 / 2 ^ 53 * 100 :: rat"
  have u: "(2::rat) powi (6 - 52) = 1 / 2 ^ 46" by (simp add: power_int_minus)
  have "0 < ?x" by simp
  moreover have "2 powi 6 \<le> ?x" by simp
  moreover have "?x < 2 powi (6 + 1)" by simp
  moreover have "of_int 4890627720347648 - 1 / 2 < ?x / 2 powi (6 - 52)"
    unfolding u by simp
  moreover have "?x / 2 powi (6 - 52) < of_int 4890627720347648 + 1 / 2"
    unfolding u by simp
  ultimately have "fl ?x = of_int 4890627720347648 * 2 powi (6 - 52)"
    by (rule fl_value)
  then show ?thesis unfolding u by simp
qed

lemma big_percentage:
  "percentage \<lparr>expressions = \<lparr>covered_count = 35925729692763,
                                uncovered_count = 15765967706896\<rparr>,
               uncoveredLocations = rs\<rparr> = 70"
proof -
  have c: "number_of 35925729692763 = 35925729692763"
    "number_of 15765967706896 = 15765967706896"
    using number_of_exact[of 35925729692763] number_of_exact[of 15765967706896] by simp_all
  have t: "fl 51691697399659 = 51691697399659"
    using fl_of_nat[of 51691697399659] by simp
  have q: "fl (fl (35925729692763 / 51691697399659) * 100) = 139 / 2"
    by (simp only: big_quotient big_product)
  show ?thesis
    by (simp add: percentage_def percent_of_def Let_def c t q Math_round_def)
qed

section \<open>What the coverage view displays\<close>

lemma Number_toString_of_nat: "Number_toString (of_nat n) = digits n"
  by (simp add: Number_toString_def)

lemma update_textContent:
  "textContent (fst (update json view h))
   = ''Flow Coverage: '' @ Number_toString (percentage json) @ ''%''"
  by (simp add: update_def percentage_def Let_def tooltips_add_def)

lemma length_tooltips_dispose: "length (tooltips (dispose d h)) = length (tooltips h)"
  by (simp add: dispose_def)

lemma update_tooltipDisposable:
  "tooltipDisposable (fst (update json view h)) = Some (length (tooltips h))"
  by (simp add: update_def Let_def tooltips_add_def length_tooltips_dispose split: option.split)

lemma update_tooltip:
  "tooltips (snd (update json view h)) ! length (tooltips h)
   = \<lparr>title = ''Covered '' @ Number_toString (percentage json) @ ''% (''
              @ Number_toString (number_of (covered_count (expressions json))) @ '' of ''
              @ Number_toString (fl (number_of (covered_count (expressions json))
                                     + number_of (uncovered_count (expressions json))))
              @ '' expressions)<br>Click to toggle uncovered code'',
      disposed = False\<rparr>"
proof (cases "tooltipDisposable view")
  case None
  then show ?thesis
    by (simp add: update_def percentage_def Let_def tooltips_add_def nth_append)
next
  case (Some d)
  have "length (tooltips (dispose d h)) = length (tooltips h)" by (rule length_tooltips_dispose)
  with Some show ?thesis
    by (simp add: update_def percentage_def Let_def tooltips_add_def nth_append)
qed

lemma percentage_natural:
  assumes "c + u < 2 ^ 44"
  shows "\<exists>p\<le>100. percentage \<lparr>expressions = \<lparr>covered_count = c, uncovered_count = u\<rparr>,
                              uncoveredLocations = rs\<rparr> = of_nat p"
proof (cases "c + u = 0")
  case True
  then have "c = 0" "u = 0" by simp_all
  then have "percentage \<lparr>expressions = \<lparr>covered_count = c, uncovered_count = u\<rparr>,
                         uncoveredLocations = rs\<rparr> = of_nat 0"
    by (simp only: percentage_zero of_nat_0)
  then show ?thesis by blast
next
  case False
  then have "0 < c + u" by simp
  from percentage_range[OF this assms] show ?thesis .
qed

lemma counts_exact:
  assumes "c + u < 2 ^ 44"
  shows "number_of c = of_nat c" and "fl (number_of c + number_of u) = of_nat (c + u)"
proof -
  have "(2::nat) ^ 44 < 2 ^ 53" by simp
  with assms have b: "c < 2 ^ 53" "u < 2 ^ 53" "c + u < 2 ^ 53" by linarith+
  show "number_of c = of_nat c" by (rule number_of_exact[OF b(1)])
  have "fl (of_nat c + of_nat u) = of_nat (c + u)" using fl_of_nat[OF b(3)] by simp
  then show "fl (number_of c + number_of u) = of_nat (c + u)"
    by (simp only: number_of_exact[OF b(1)] number_of_exact[OF b(2)])
qed

lemma digits_75: "digits 75 = ''75''"
  by code_simp

lemma digits_3: "digits 3 = ''3''"
  by code_simp

lemma digits_4: "digits 4 = ''4''"
  by code_simp

lemma percentage_only_counts:
  "percentage \<lparr>expressions = \<lparr>covered_count = c, uncovered_count = u\<rparr>,
               uncoveredLocations = rs\<rparr>
   = percentage \<lparr>expressions = \<lparr>covered_count = c, uncovered_count = u\<rparr>,
                 uncoveredLocations = []\<rparr>"
  by (simp add: percentage_def)

lemma digits_0: "digits 0 = ''0''"
  by code_simp

lemma digits_1: "digits (Suc 0) = ''1''"
  by code_simp

lemma digits_25: "digits 25 = ''25''"
  by code_simp

lemma digits_33: "digits 33 = ''33''"
  by code_simp

lemma digits_57: "digits 57 = ''57''"
  by code_simp

lemma digits_70: "digits 70 = ''70''"
  by code_simp

lemma update_text_of_percentage:
  assumes "percentage json = of_nat p"
  shows "textContent (fst (update json view h)) = ''Flow Coverage: '' @ digits p @ ''%''"
  by (simp only: update_textContent assms Number_toString_of_nat)

text \<open>
  Claim C1, as stated, fails. The quotient and its product with 100 are rounded to
  doubles before \<open>Math.round\<close> sees them. For 23 covered and 17 uncovered expressions the
  exact value is 57.5, which rounds to 58, but the double that \<open>Math.round\<close> receives lies
  below 57.5 and the view shows 57. For counts beyond \<open>2\<^sup>4\<^sup>4\<close> the result need not even be a
  nearest integer: for 35925729692763 covered and 15765967706896 uncovered expressions the
  exact value lies below 69.5 and the view shows 70.
\<close>

theorem update_percentage_counterexample:
  "textContent (fst (update \<lparr>expressions = \<lparr>covered_count = 23, uncovered_count = 17\<rparr>,
                            uncoveredLocations = []\<rparr> demo_view demo_host))
   = ''Flow Coverage: 57%''
   \<and> percentage \<lparr>expressions = \<lparr>covered_count = 23, uncovered_count = 17\<rparr>,
                 uncoveredLocations = []\<rparr> = 57
   \<and> Math_round (23 / (23 + 17) * 100) = 58
   \<and> textContent (fst (update \<lparr>expressions = \<lparr>covered_count = 35925729692763,
                                               uncovered_count = 15765967706896\<rparr>,
                                uncoveredLocations = []\<rparr> demo_view demo_host))
       = ''Flow Coverage: 70%''
   \<and> Math_round (35925729692763 / (35925729692763 + 15765967706896) * 100) = 69
   \<and> 1 / 2 < \<bar>70 - 35925729692763 / (35925729692763 + 15765967706896) * 100 :: rat\<bar>"
proof -
  have p: "percentage \<lparr>expressions = \<lparr>covered_count = 23, uncovered_count = 17\<rparr>,
                        uncoveredLocations = []\<rparr> = of_nat 57"
    using percentage_tie_down by simp
  have b: "percentage \<lparr>expressions = \<lparr>covered_count = 35925729692763,
                                          uncovered_count = 15765967706896\<rparr>,
                        uncoveredLocations = []\<rparr> = of_nat 70"
    using big_percentage[of "[]"] by simp
  have 1: "textContent (fst (update \<lparr>expressions = \<lparr>covered_count = 23, uncovered_count = 17\<rparr>,
                            uncoveredLocations = []\<rparr> demo_view demo_host))
           = ''Flow Coverage: 57%''"
    using update_text_of_percentage[OF p] by (simp add: digits_57)
  have 2: "textContent (fst (update \<lparr>expressions = \<lparr>covered_count = 35925729692763,
                                               uncovered_count = 15765967706896\<rparr>,
                                uncoveredLocations = []\<rparr> demo_view demo_host))
       = ''Flow Coverage: 70%''"
    using update_text_of_percentage[OF b] by (simp add: digits_70)
  have "\<lfloor>23 / (23 + 17) * 100 + 1 / 2 :: rat\<rfloor> = 58"
    by (rule floor_unique) simp_all
  then have 3: "Math_round (23 / (23 + 17) * 100) = 58" by (simp only: Math_round_def of_int_numeral)
  have "\<lfloor>35925729692763 / (35925729692763 + 15765967706896) * 100 + 1 / 2 :: rat\<rfloor> = 69"
    by (rule floor_unique) simp_all
  then have 4: "Math_round (35925729692763 / (35925729692763 + 15765967706896) * 100) = 69"
    by (simp only: Math_round_def of_int_numeral)
  have 5: "1 / 2 < \<bar>70 - 35925729692763 / (35925729692763 + 15765967706896) * 100 :: rat\<bar>"
    by simp
  from 1 2 3 4 5 percentage_tie_down show ?thesis by simp
qed

text \<open>
  Claim C1, amended. For every coverage report whose counts \<open>c\<close> (covered) and \<open>u\<close>
  (uncovered) have \<open>c + u < 2\<^sup>4\<^sup>4\<close>, the percentage that \<open>update\<close> computes and shows is 0
  when \<open>c + u = 0\<close>, and otherwise a whole number from 0 to 100 at distance at most one half
  from \<open>c / (c + u) \<sqdot> 100\<close>; it equals \<open>round(c / (c + u) \<sqdot> 100)\<close> whenever that value is not
  exactly half-way between two integers. At a half-way value the double arithmetic decides
  between the two neighbours: 23 covered and 17 uncovered give 57, 1 covered and 199
  uncovered give 1. In particular the counts (0, 0), (3, 1), (1, 3) and (1, 2) give 0, 75,
  25 and 33.
\<close>

theorem update_percentage:
  "(c + u = 0 \<longrightarrow>
      percentage \<lparr>expressions = \<lparr>covered_count = c, uncovered_count = u\<rparr>,
                  uncoveredLocations = rs\<rparr> = 0
      \<and> textContent (fst (update \<lparr>expressions = \<lparr>covered_count = c, uncovered_count = u\<rparr>,
                                   uncoveredLocations = rs\<rparr> view h))
          = ''Flow Coverage: 0%'')
   \<and> (0 < c + u \<and> c + u < 2 ^ 44 \<longrightarrow>
        (\<exists>p\<le>100.
           percentage \<lparr>expressions = \<lparr>covered_count = c, uncovered_count = u\<rparr>,
                       uncoveredLocations = rs\<rparr> = of_nat p
           \<and> textContent (fst (update \<lparr>expressions = \<lparr>covered_count = c, uncovered_count = u\<rparr>,
                                        uncoveredLocations = rs\<rparr> view h))
               = ''Flow Coverage: '' @ digits p @ ''%''
           \<and> \<bar>of_nat p - of_nat c / of_nat (c + u) * 100\<bar> \<le> (1 / 2 :: rat)
           \<and> ((200 * c + (c + u)) mod (2 * (c + u)) \<noteq> 0 \<longrightarrow>
                of_nat p = Math_round (of_nat c / of_nat (c + u) * 100))))
   \<and> textContent (fst (update \<lparr>expressions = \<lparr>covered_count = 0, uncovered_count = 0\<rparr>,
                                uncoveredLocations = rs\<rparr> view h))
       = ''Flow Coverage: 0%''
   \<and> textContent (fst (update \<lparr>expressions = \<lparr>covered_count = 3, uncovered_count = 1\<rparr>,
                                uncoveredLocations = rs\<rparr> view h))
       = ''Flow Coverage: 75%''
   \<and> textContent (fst (update \<lparr>expressions = \<lparr>covered_count = 1, uncovered_count = 3\<rparr>,
                                uncoveredLocations = rs\<rparr> view h))
       = ''Flow Coverage: 25%''
   \<and> textContent (fst (update \<lparr>expressions = \<lparr>covered_count = 1, uncovered_count = 2\<rparr>,
                                uncoveredLocations = rs\<rparr> view h))
       = ''Flow Coverage: 33%''
   \<and> textContent (fst (update \<lparr>expressions = \<lparr>covered_count = 23, uncovered_count = 17\<rparr>,
                                uncoveredLocations = rs\<rparr> view h))
       = ''Flow Coverage: 57%''
   \<and> textContent (fst (update \<lparr>expressions = \<lparr>covered_count = 1, uncovered_count = 199\<rparr>,
                                uncoveredLocations = rs\<rparr> view h))
       = ''Flow Coverage: 1%''"
proof -
  let ?J = "\<lambda>c u. \<lparr>expressions = \<lparr>covered_count = c, uncovered_count = u\<rparr>,
                    uncoveredLocations = rs\<rparr>"
  have zero: "percentage (?J 0 0) = 0" by (rule percentage_zero)
  have shown: "textContent (fst (update (?J a b) view h)) = ''Flow Coverage: '' @ digits p @ ''%''"
    if "percentage (?J a b) = of_nat p" for a b p
    using that by (rule update_text_of_percentage)
  have t0: "textContent (fst (update (?J 0 0) view h)) = ''Flow Coverage: 0%''"
    using shown[of 0 0 0] zero by (simp add: digits_0)
  have A: "c + u = 0 \<longrightarrow> percentage (?J c u) = 0
             \<and> textContent (fst (update (?J c u) view h)) = ''Flow Coverage: 0%''"
  proof
    assume "c + u = 0"
    then have "c = 0" "u = 0" by simp_all
    with zero t0 show "percentage (?J c u) = 0
             \<and> textContent (fst (update (?J c u) view h)) = ''Flow Coverage: 0%''"
      by simp
  qed
  have B: "0 < c + u \<and> c + u < 2 ^ 44 \<longrightarrow>
        (\<exists>p\<le>100. percentage (?J c u) = of_nat p
           \<and> textContent (fst (update (?J c u) view h)) = ''Flow Coverage: '' @ digits p @ ''%''
           \<and> \<bar>of_nat p - of_nat c / of_nat (c + u) * 100\<bar> \<le> (1 / 2 :: rat)
           \<and> ((200 * c + (c + u)) mod (2 * (c + u)) \<noteq> 0 \<longrightarrow>
                of_nat p = Math_round (of_nat c / of_nat (c + u) * 100)))"
  proof
    assume a: "0 < c + u \<and> c + u < 2 ^ 44"
    note pos = conjunct1[OF a] and bound = conjunct2[OF a]
    obtain p where p: "p \<le> 100" "percentage (?J c u) = of_nat p"
      using percentage_range[OF pos bound, of rs] by blast
    have sw: "of_nat c / of_nat (c + u) * 100 = (100 * of_nat c / of_nat (c + u) :: rat)"
      by simp
    have near: "\<bar>of_nat p - of_nat c / of_nat (c + u) * 100\<bar> \<le> (1 / 2 :: rat)"
      using percentage_nearest[OF pos bound, of rs] by (simp only: p(2) sw)
    have notie: "of_nat p = Math_round (of_nat c / of_nat (c + u) * 100)"
      if n: "(200 * c + (c + u)) mod (2 * (c + u)) \<noteq> 0"
    proof -
      have "percentage (?J c u) = of_nat ((200 * c + (c + u)) div (2 * (c + u)))"
        by (rule percentage_no_tie[OF pos bound n])
      also have "\<dots> = Math_round (100 * of_nat c / of_nat (c + u))"
        by (rule Math_round_quotient[OF pos, symmetric])
      finally show ?thesis by (simp only: p(2) sw)
    qed
    from p near notie shown[OF p(2)]
    show "\<exists>p\<le>100. percentage (?J c u) = of_nat p
           \<and> textContent (fst (update (?J c u) view h)) = ''Flow Coverage: '' @ digits p @ ''%''
           \<and> \<bar>of_nat p - of_nat c / of_nat (c + u) * 100\<bar> \<le> (1 / 2 :: rat)
           \<and> ((200 * c + (c + u)) mod (2 * (c + u)) \<noteq> 0 \<longrightarrow>
                of_nat p = Math_round (of_nat c / of_nat (c + u) * 100))"
      by blast
  qed
  have "percentage (?J 3 1) = of_nat 75" using percentage_no_tie[of 3 1 rs] by simp
  then have t1: "textContent (fst (update (?J 3 1) view h)) = ''Flow Coverage: 75%''"
    using shown[of 3 1 75] by (simp add: digits_75)
  have "percentage (?J 1 3) = of_nat 25" using percentage_no_tie[of 1 3 rs] by simp
  then have t2: "textContent (fst (update (?J 1 3) view h)) = ''Flow Coverage: 25%''"
    using shown[of 1 3 25] by (simp add: digits_25)
  have "percentage (?J 1 2) = of_nat 33" using percentage_no_tie[of 1 2 rs] by simp
  then have t3: "textContent (fst (update (?J 1 2) view h)) = ''Flow Coverage: 33%''"
    using shown[of 1 2 33] by (simp add: digits_33)
  have "percentage (?J 23 17) = of_nat 57"
    by (simp only: percentage_only_counts[of 23 17 rs] percentage_tie_down of_nat_numeral)
  then have t4: "textContent (fst (update (?J 23 17) view h)) = ''Flow Coverage: 57%''"
    using shown[of 23 17 57] by (simp add: digits_57)
  have "percentage (?J 1 199) = of_nat 1"
    by (simp only: percentage_only_counts[of 1 199 rs] percentage_tie_up of_nat_1)
  then have t5: "textContent (fst (update (?J 1 199) view h)) = ''Flow Coverage: 1%''"
    using shown[of 1 199 1] by (simp add: digits_1)
  from A B t0 t1 t2 t3 t4 t5 show ?thesis by (intro conjI)
qed

theorem update_percentage_witness:
  "0 < (1::nat) + 2 \<and> (1::nat) + 2 < 2 ^ 44
   \<and> (200 * 1 + (1 + 2)) mod (2 * (1 + 2)) \<noteq> (0::nat)
   \<and> percentage \<lparr>expressions = \<lparr>covered_count = 1, uncovered_count = 2\<rparr>,
                 uncoveredLocations = []\<rparr> = Math_round (of_nat 1 / of_nat (1 + 2) * 100)
   \<and> percentage \<lparr>expressions = \<lparr>covered_count = 1, uncovered_count = 2\<rparr>,
                 uncoveredLocations = []\<rparr> = 33
   \<and> textContent (fst (update \<lparr>expressions = \<lparr>covered_count = 1, uncovered_count = 2\<rparr>,
                                uncoveredLocations = []\<rparr> demo_view demo_host))
       = ''Flow Coverage: 33%''
   \<and> (0::nat) + 0 = 0
   \<and> percentage \<lparr>expressions = \<lparr>covered_count = 0, uncovered_count = 0\<rparr>,
                 uncoveredLocations = []\<rparr> = 0"
proof -
  note t = update_percentage[of 1 2 "[]" demo_view demo_host]
  have h: "0 < (1::nat) + 2 \<and> (1::nat) + 2 < 2 ^ 44" by simp
  have n: "(200 * 1 + (1 + 2)) mod (2 * (1 + 2)) \<noteq> (0::nat)" by simp
  from conjunct1[OF conjunct2[OF t]] h obtain p where
    p: "percentage \<lparr>expressions = \<lparr>covered_count = 1, uncovered_count = 2\<rparr>,
                    uncoveredLocations = []\<rparr> = of_nat p"
    and r: "(200 * 1 + (1 + 2)) mod (2 * (1 + 2)) \<noteq> (0::nat) \<longrightarrow>
                (of_nat p :: rat) = Math_round (of_nat 1 / of_nat (1 + 2) * 100)"
    by blast
  from r n have e: "(of_nat p :: rat) = Math_round (of_nat 1 / of_nat (1 + 2) * 100)" by blast
  have "\<lfloor>of_nat 1 / of_nat (1 + 2) * 100 + 1 / 2 :: rat\<rfloor> = 33"
    by (rule floor_unique) simp_all
  then have m: "Math_round (of_nat 1 / of_nat (1 + 2) * 100) = 33"
    by (simp only: Math_round_def of_int_numeral)
  from t have x: "textContent (fst (update \<lparr>expressions = \<lparr>covered_count = 1, uncovered_count = 2\<rparr>,
                                uncoveredLocations = []\<rparr> demo_view demo_host))
       = ''Flow Coverage: 33%''"
    by blast
  from conjunct1[OF update_percentage[of 0 0 "[]" demo_view demo_host]]
  have z: "percentage \<lparr>expressions = \<lparr>covered_count = 0, uncovered_count = 0\<rparr>,
                 uncoveredLocations = []\<rparr> = 0"
    by simp
  from h n p e m x z show ?thesis by simp
qed

text \<open>
  Claim C7, as stated, fails: for the report with 3 covered and 1 uncovered expressions
  the text is \<open>Flow Coverage: 75%\<close>, not \<open>Coverage: 75%\<close>, and the tooltip's title goes on
  after the total with the word \<open>expressions\<close> and a second line.
\<close>

theorem update_display_counterexample:
  "textContent (fst (update demo_report demo_view demo_host)) = ''Flow Coverage: 75%''
   \<and> textContent (fst (update demo_report demo_view demo_host)) \<noteq> ''Coverage: 75%''
   \<and> title (tooltips (snd (update demo_report demo_view demo_host)) ! 0)
       = ''Covered 75% (3 of 4 expressions)<br>Click to toggle uncovered code''
   \<and> title (tooltips (snd (update demo_report demo_view demo_host)) ! 0)
       \<noteq> ''Covered 75% (3 of 4)''"
proof -
  have p: "percentage demo_report = of_nat 75"
    unfolding demo_report_def using percentage_no_tie[of 3 1] by simp
  have c: "number_of 3 = of_nat 3" "fl (number_of 3 + number_of 1) = of_nat (3 + 1)"
    using counts_exact[of 3 1] by simp_all
  have t: "textContent (fst (update demo_report demo_view demo_host)) = ''Flow Coverage: 75%''"
    unfolding update_textContent p Number_toString_of_nat digits_75 by simp
  have "tooltips (snd (update demo_report demo_view demo_host)) ! length (tooltips demo_host)
        = \<lparr>title = ''Covered '' @ digits 75 @ ''% ('' @ digits 3 @ '' of '' @ digits (3 + 1)
                   @ '' expressions)<br>Click to toggle uncovered code'',
           disposed = False\<rparr>"
    unfolding update_tooltip p
    apply (simp only: demo_report_def CoverageObject.simps expression_counts.simps)
    apply (simp only: c(2))
    apply (simp only: c(1) Number_toString_of_nat)
    done
  then have tt: "title (tooltips (snd (update demo_report demo_view demo_host)) ! 0)
       = ''Covered 75% (3 of 4 expressions)<br>Click to toggle uncovered code''"
    by (simp add: demo_host_def digits_75 digits_3 digits_4)
  show ?thesis unfolding t tt by simp
qed

text \<open>
  Claim C7, amended. For every coverage report, \<open>update\<close> sets the displayed text to
  \<open>Flow Coverage: {percent}%\<close> and registers a new tooltip whose title is
  \<open>Covered {percent}% ({covered} of {total} expressions)<br>Click to toggle uncovered code\<close>,
  where percent is the computed percentage, covered is the covered count and total is the
  sum of the two counts, each as the number prints. For counts \<open>c\<close> and \<open>u\<close> with
  \<open>c + u < 2\<^sup>4\<^sup>4\<close> the three are printed as the decimal digits of a whole number from 0
  to 100, of \<open>c\<close> and of \<open>c + u\<close>.
\<close>

theorem update_display:
  "textContent (fst (update \<lparr>expressions = \<lparr>covered_count = c, uncovered_count = u\<rparr>,
                             uncoveredLocations = rs\<rparr> view h))
   = ''Flow Coverage: ''
     @ Number_toString (percentage \<lparr>expressions = \<lparr>covered_count = c, uncovered_count = u\<rparr>,
                                     uncoveredLocations = rs\<rparr>)
     @ ''%''
   \<and> tooltipDisposable (fst (update \<lparr>expressions = \<lparr>covered_count = c, uncovered_count = u\<rparr>,
                                      uncoveredLocations = rs\<rparr> view h))
       = Some (length (tooltips h))
   \<and> tooltips (snd (update \<lparr>expressions = \<lparr>covered_count = c, uncovered_count = u\<rparr>,
                             uncoveredLocations = rs\<rparr> view h)) ! length (tooltips h)
       = \<lparr>title = ''Covered ''
                  @ Number_toString
                      (percentage \<lparr>expressions = \<lparr>covered_count = c, uncovered_count = u\<rparr>,
                                    uncoveredLocations = rs\<rparr>)
                  @ ''% ('' @ Number_toString (number_of c) @ '' of ''
                  @ Number_toString (fl (number_of c + number_of u))
                  @ '' expressions)<br>Click to toggle uncovered code'',
          disposed = False\<rparr>
   \<and> (c + u < 2 ^ 44 \<longrightarrow>
        (\<exists>p\<le>100. Number_toString
                      (percentage \<lparr>expressions = \<lparr>covered_count = c, uncovered_count = u\<rparr>,
                                    uncoveredLocations = rs\<rparr>) = digits p)
        \<and> Number_toString (number_of c) = digits c
        \<and> Number_toString (fl (number_of c + number_of u)) = digits (c + u))"
proof (intro conjI impI)
  let ?json = "\<lparr>expressions = \<lparr>covered_count = c, uncovered_count = u\<rparr>,
                uncoveredLocations = rs\<rparr>"
  show "textContent (fst (update ?json view h))
        = ''Flow Coverage: '' @ Number_toString (percentage ?json) @ ''%''"
    by (rule update_textContent)
  show "tooltipDisposable (fst (update ?json view h)) = Some (length (tooltips h))"
    by (rule update_tooltipDisposable)
  show "tooltips (snd (update ?json view h)) ! length (tooltips h)
       = \<lparr>title = ''Covered '' @ Number_toString (percentage ?json)
                  @ ''% ('' @ Number_toString (number_of c) @ '' of ''
                  @ Number_toString (fl (number_of c + number_of u))
                  @ '' expressions)<br>Click to toggle uncovered code'',
          disposed = False\<rparr>"
    using update_tooltip[of ?json view h] by simp
next
  assume b: "c + u < 2 ^ 44"
  let ?json = "\<lparr>expressions = \<lparr>covered_count = c, uncovered_count = u\<rparr>,
                uncoveredLocations = rs\<rparr>"
  obtain p where p: "p \<le> 100" "percentage ?json = of_nat p"
    using percentage_natural[OF b, of rs] by blast
  have "Number_toString (percentage ?json) = digits p"
    by (simp only: p(2) Number_toString_of_nat)
  with p(1) show "\<exists>p\<le>100. Number_toString (percentage ?json) = digits p" by blast
  show "Number_toString (number_of c) = digits c"
    by (simp only: counts_exact(1)[OF b] Number_toString_of_nat)
  show "Number_toString (fl (number_of c + number_of u)) = digits (c + u)"
    by (simp only: counts_exact(2)[OF b] Number_toString_of_nat)
qed

theorem update_display_witness:
  "(3::nat) + 1 < 2 ^ 44
   \<and> textContent (fst (update demo_report demo_view demo_host))
       = ''Flow Coverage: '' @ Number_toString (percentage demo_report) @ ''%''
   \<and> Number_toString (percentage demo_report) = ''75''
   \<and> Number_toString (number_of 3) = ''3''
   \<and> Number_toString (fl (number_of 3 + number_of 1)) = ''4''
   \<and> tooltipDisposable (fst (update demo_report demo_view demo_host)) = Some 0
   \<and> tooltips (snd (update demo_report demo_view demo_host)) ! 0
       = \<lparr>title = ''Covered 75% (3 of 4 expressions)<br>Click to toggle uncovered code'',
          disposed = False\<rparr>"
proof -
  have b: "(3::nat) + 1 < 2 ^ 44" by simp
  have p: "percentage demo_report = of_nat 75"
    unfolding demo_report_def using percentage_no_tie[of 3 1] by simp
  have n: "Number_toString (percentage demo_report) = ''75''"
    by (simp only: p Number_toString_of_nat digits_75)
  note t = update_display[of 3 1 "uncoveredLocations demo_report" demo_view demo_host]
  have r: "\<lparr>expressions = \<lparr>covered_count = 3, uncovered_count = 1\<rparr>,
            uncoveredLocations = uncoveredLocations demo_report\<rparr> = demo_report"
    by (simp add: demo_report_def)
  note t' = t[unfolded r]
  from t' b have d: "Number_toString (number_of 3) = digits 3"
    "Number_toString (fl (number_of 3 + number_of 1)) = digits (3 + 1)"
    by blast+
  have d': "Number_toString (number_of 3) = ''3''"
    "Number_toString (fl (number_of 3 + number_of 1)) = ''4''"
    using d by (simp_all add: digits_3 digits_4)
  from t' have "textContent (fst (update demo_report demo_view demo_host))
       = ''Flow Coverage: '' @ Number_toString (percentage demo_report) @ ''%''"
    and "tooltipDisposable (fst (update demo_report demo_view demo_host))
         = Some (length (tooltips demo_host))"
    and "tooltips (snd (update demo_report demo_view demo_host)) ! length (tooltips demo_host)
       = \<lparr>title = ''Covered '' @ Number_toString (percentage demo_report)
                  @ ''% ('' @ Number_toString (number_of 3) @ '' of ''
                  @ Number_toString (fl (number_of 3 + number_of 1))
                  @ '' expressions)<br>Click to toggle uncovered code'',
          disposed = False\<rparr>"
    by blast+
  with b n d' show ?thesis by (simp add: demo_host_def)
qed

section \<open>The linter, case by case\<close>

text \<open>
  The body of \<open>lint\<close>, for any function \<open>f\<close> in the place of the recursive call, in terms
  of the names given to its parts.
\<close>

lemma lint_body_unfold:
  "(let filePath = getPath textEditor;
        fileDirectory = Path_dirname e filePath;
        configFile = (if onlyIfAppropriate pkg
                      then findCachedAsync e fileDirectory ''.flowconfig'' else None)
    in if onlyIfAppropriate pkg \<and> \<not> truthy configFile then Some (Inr (Messages []), pkg, h)
       else
         (let executable = getExecutablePath e pkg fileDirectory;
              call = coverage_call executable filePath fileDirectory;
              h1 = record_call call h
          in case exec e (exec_calls h) call of
               Resolved None \<Rightarrow> Some (Inr Null, pkg, h1)
             | Resolved (Some result) \<Rightarrow>
                 (case JSON_parse e result of
                    Inl err \<Rightarrow> Some (Inl err, pkg, h1)
                  | Inr coverage \<Rightarrow>
                      (case update_coverageView_value e coverage
                              (pkg\<lparr>coverages := (coverages pkg)(textEditor \<mapsto> coverage)\<rparr>) h1 of
                         Inl err \<Rightarrow>
                           Some (Inl err,
                                 pkg\<lparr>coverages := (coverages pkg)(textEditor \<mapsto> coverage)\<rparr>,
                                 h1)
                       | Inr (pkg2, h2) \<Rightarrow>
                           if showUncovered pkg2
                           then (case messages_for e coverage of
                                   Inl err \<Rightarrow> Some (Inl err, pkg2, h2)
                                 | Inr ms \<Rightarrow> Some (Inr (Messages ms), pkg2, h2))
                           else Some (Inr (Messages []), pkg2, h2)))
             | Rejected error \<Rightarrow>
                 (let pkg1 = (if indexOf (message error) (INIT_MESSAGE e) \<noteq> - 1
                                 \<and> truthy configFile
                              then (case configFile of
                                      None \<Rightarrow> pkg
                                    | Some cf \<Rightarrow>
                                        pkg\<lparr>spawnedServers :=
                                              Set_add (Path_dirname e cf) (spawnedServers pkg)\<rparr>)
                              else pkg)
                  in if indexOf (message error) (INIT_MESSAGE e) \<noteq> - 1
                        \<or> indexOf (message error) (RECHECKING_MESSAGE e) \<noteq> - 1
                     then f e textEditor pkg1 h1
                     else if code error = Some ''ENOENT''
                     then Some (Inl (Error ''Unable to find `flow` executable.'' None), pkg1, h1)
                     else Some (Inl error, pkg1, h1))))
   = (if inappropriate e textEditor pkg then Some (Inr (Messages []), pkg, h)
      else (case exec e (exec_calls h) (lint_call e textEditor pkg) of
              Resolved None \<Rightarrow> Some (Inr Null, pkg, record_call (lint_call e textEditor pkg) h)
            | Resolved (Some result) \<Rightarrow>
                (case JSON_parse e result of
                   Inl err \<Rightarrow> Some (Inl err, pkg, record_call (lint_call e textEditor pkg) h)
                 | Inr coverage \<Rightarrow>
                     Some (after_parse e textEditor pkg
                             (record_call (lint_call e textEditor pkg) h) coverage))
            | Rejected error \<Rightarrow>
                if has_init_marker e error \<or> has_rechecking_marker e error
                then f e textEditor (note_spawned e textEditor pkg error)
                       (record_call (lint_call e textEditor pkg) h)
                else if code error = Some ''ENOENT''
                then Some (Inl not_found_error, note_spawned e textEditor pkg error,
                           record_call (lint_call e textEditor pkg) h)
                else Some (Inl error, note_spawned e textEditor pkg error,
                           record_call (lint_call e textEditor pkg) h)))"
  by (simp add: Let_def inappropriate_def lint_configFile_def lint_call_def has_init_marker_def
        has_rechecking_marker_def note_spawned_def not_found_error_def after_parse_def
      split: exec_outcome.split option.split sum.split prod.split)

lemma lint_unfold:
  "lint e textEditor pkg h =
     (if inappropriate e textEditor pkg then Some (Inr (Messages []), pkg, h)
      else (case exec e (exec_calls h) (lint_call e textEditor pkg) of
              Resolved None \<Rightarrow> Some (Inr Null, pkg, record_call (lint_call e textEditor pkg) h)
            | Resolved (Some result) \<Rightarrow>
                (case JSON_parse e result of
                   Inl err \<Rightarrow> Some (Inl err, pkg, record_call (lint_call e textEditor pkg) h)
                 | Inr coverage \<Rightarrow>
                     Some (after_parse e textEditor pkg
                             (record_call (lint_call e textEditor pkg) h) coverage))
            | Rejected error \<Rightarrow>
                if has_init_marker e error \<or> has_rechecking_marker e error
                then lint e textEditor (note_spawned e textEditor pkg error)
                       (record_call (lint_call e textEditor pkg) h)
                else if code error = Some ''ENOENT''
                then Some (Inl not_found_error, note_spawned e textEditor pkg error,
                           record_call (lint_call e textEditor pkg) h)
                else Some (Inl error, note_spawned e textEditor pkg error,
                           record_call (lint_call e textEditor pkg) h)))"
  by (subst lint.simps) (rule lint_body_unfold)

lemma note_spawned_no_marker [simp]:
  "\<not> has_init_marker e error \<Longrightarrow> note_spawned e textEditor pkg error = pkg"
  by (simp add: note_spawned_def)

lemma note_spawned_fields [simp]:
  "executablePath (note_spawned e textEditor pkg error) = executablePath pkg"
  "onlyIfAppropriate (note_spawned e textEditor pkg error) = onlyIfAppropriate pkg"
  "showUncovered (note_spawned e textEditor pkg error) = showUncovered pkg"
  "coverages (note_spawned e textEditor pkg error) = coverages pkg"
  "coverageView (note_spawned e textEditor pkg error) = coverageView pkg"
  by (simp_all add: note_spawned_def split: option.split)

lemma note_spawned_frame:
  "(note_spawned e textEditor pkg error)\<lparr>spawnedServers := spawnedServers pkg\<rparr> = pkg"
  by (simp add: note_spawned_def split: option.split)

lemma note_spawned_grows:
  "set (spawnedServers pkg) \<subseteq> set (spawnedServers (note_spawned e textEditor pkg error))"
  by (auto simp add: note_spawned_def Set_add_def split: option.split)

lemma lint_configFile_cong:
  "onlyIfAppropriate pkg' = onlyIfAppropriate pkg \<Longrightarrow>
     lint_configFile e textEditor pkg' = lint_configFile e textEditor pkg"
  by (simp add: lint_configFile_def)

lemma inappropriate_cong:
  "onlyIfAppropriate pkg' = onlyIfAppropriate pkg \<Longrightarrow>
     inappropriate e textEditor pkg' = inappropriate e textEditor pkg"
  by (simp add: inappropriate_def lint_configFile_def)

lemma lint_call_cong:
  "executablePath pkg' = executablePath pkg \<Longrightarrow>
     lint_call e textEditor pkg' = lint_call e textEditor pkg"
  by (simp add: lint_call_def getExecutablePath_def)

lemma note_spawned_same_call [simp]:
  "lint_call e textEditor (note_spawned e textEditor pkg error) = lint_call e textEditor pkg"
  "inappropriate e textEditor (note_spawned e textEditor pkg error) = inappropriate e textEditor pkg"
  "lint_configFile e textEditor (note_spawned e textEditor pkg error)
     = lint_configFile e textEditor pkg"
  by (rule lint_call_cong, simp) (rule inappropriate_cong, simp, rule lint_configFile_cong, simp)

lemma lint_inappropriate:
  "inappropriate e textEditor pkg \<Longrightarrow> lint e textEditor pkg h = Some (Inr (Messages []), pkg, h)"
  by (subst lint_unfold) simp

lemma lint_superseded:
  assumes "\<not> inappropriate e textEditor pkg"
    and "exec e (exec_calls h) (lint_call e textEditor pkg) = Resolved None"
  shows "lint e textEditor pkg h
         = Some (Inr Null, pkg, record_call (lint_call e textEditor pkg) h)"
  using assms by (subst lint_unfold) simp

lemma lint_parse_error:
  assumes "\<not> inappropriate e textEditor pkg"
    and "exec e (exec_calls h) (lint_call e textEditor pkg) = Resolved (Some result)"
    and "JSON_parse e result = Inl err"
  shows "lint e textEditor pkg h
         = Some (Inl err, pkg, record_call (lint_call e textEditor pkg) h)"
  using assms by (subst lint_unfold) simp

lemma update_coverageView_fields [simp]:
  "executablePath (fst (update_coverageView coverage pkg h)) = executablePath pkg"
  "onlyIfAppropriate (fst (update_coverageView coverage pkg h)) = onlyIfAppropriate pkg"
  "showUncovered (fst (update_coverageView coverage pkg h)) = showUncovered pkg"
  "coverages (fst (update_coverageView coverage pkg h)) = coverages pkg"
  "spawnedServers (fst (update_coverageView coverage pkg h)) = spawnedServers pkg"
  by (simp_all add: update_coverageView_def split: option.split prod.split)

lemma update_exec_calls [simp]: "exec_calls (snd (update json view h)) = exec_calls h"
  by (simp add: update_def Let_def tooltips_add_def dispose_def split: option.split)

lemma update_coverageView_exec_calls [simp]:
  "exec_calls (snd (update_coverageView coverage pkg h)) = exec_calls h"
proof (cases "coverageView pkg")
  case None
  then show ?thesis by (simp add: update_coverageView_def)
next
  case (Some view)
  obtain view' h' where u: "update coverage view h = (view', h')"
    by (cases "update coverage view h")
  have "exec_calls (snd (update coverage view h)) = exec_calls h" by (rule update_exec_calls)
  then have "exec_calls h' = exec_calls h" by (simp add: u)
  then show ?thesis using Some by (simp add: update_coverageView_def u)
qed

lemma update_untyped_exec_calls:
  "update_untyped e json view h = Inr (view', h') \<Longrightarrow> exec_calls h' = exec_calls h"
  by (auto simp add: update_untyped_def Let_def tooltips_add_def dispose_def
        split: option.splits prod.splits sum.splits)

lemma update_coverageView_value_frame:
  assumes "update_coverageView_value e coverage pkg h = Inr (pkg2, h2)"
  shows "executablePath pkg2 = executablePath pkg" "onlyIfAppropriate pkg2 = onlyIfAppropriate pkg"
    "showUncovered pkg2 = showUncovered pkg" "coverages pkg2 = coverages pkg"
    "spawnedServers pkg2 = spawnedServers pkg" "exec_calls h2 = exec_calls h"
proof -
  have "executablePath pkg2 = executablePath pkg \<and> onlyIfAppropriate pkg2 = onlyIfAppropriate pkg
        \<and> showUncovered pkg2 = showUncovered pkg \<and> coverages pkg2 = coverages pkg
        \<and> spawnedServers pkg2 = spawnedServers pkg \<and> exec_calls h2 = exec_calls h"
  proof (cases coverage)
    case (Report report)
    with assms have "update_coverageView report pkg h = (pkg2, h2)"
      by (simp add: update_coverageView_value_def)
    then have "pkg2 = fst (update_coverageView report pkg h)"
      "h2 = snd (update_coverageView report pkg h)"
      by simp_all
    then show ?thesis by simp
  next
    case (Other json)
    show ?thesis
    proof (cases "coverageView pkg")
      case None
      with assms Other show ?thesis by (simp add: update_coverageView_value_def)
    next
      case (Some view)
      with assms Other obtain view' where
        u: "update_untyped e json view h = Inr (view', h2)"
        and p: "pkg2 = pkg\<lparr>coverageView := Some view'\<rparr>"
        by (auto simp add: update_coverageView_value_def split: sum.splits)
      from update_untyped_exec_calls[OF u] p show ?thesis by simp
    qed
  qed
  then show "executablePath pkg2 = executablePath pkg"
    "onlyIfAppropriate pkg2 = onlyIfAppropriate pkg"
    "showUncovered pkg2 = showUncovered pkg" "coverages pkg2 = coverages pkg"
    "spawnedServers pkg2 = spawnedServers pkg" "exec_calls h2 = exec_calls h"
    by simp_all
qed

text \<open>What \<open>lint\<close> leaves once it has parsed the output, whatever the parsed value.\<close>

lemma after_parse_frame:
  "coverages (fst (snd (after_parse e textEditor pkg h1 coverage)))
   = (coverages pkg)(textEditor \<mapsto> coverage)"
  "exec_calls (snd (snd (after_parse e textEditor pkg h1 coverage))) = exec_calls h1"
  "spawnedServers (fst (snd (after_parse e textEditor pkg h1 coverage))) = spawnedServers pkg"
  "executablePath (fst (snd (after_parse e textEditor pkg h1 coverage))) = executablePath pkg"
  "fst (after_parse e textEditor pkg h1 coverage) \<noteq> Inr Null"
proof -
  let ?pkg1 = "pkg\<lparr>coverages := (coverages pkg)(textEditor \<mapsto> coverage)\<rparr>"
  have "coverages (fst (snd (after_parse e textEditor pkg h1 coverage)))
          = (coverages pkg)(textEditor \<mapsto> coverage)
        \<and> exec_calls (snd (snd (after_parse e textEditor pkg h1 coverage))) = exec_calls h1
        \<and> spawnedServers (fst (snd (after_parse e textEditor pkg h1 coverage)))
            = spawnedServers pkg
        \<and> executablePath (fst (snd (after_parse e textEditor pkg h1 coverage)))
            = executablePath pkg
        \<and> fst (after_parse e textEditor pkg h1 coverage) \<noteq> Inr Null"
  proof (cases "update_coverageView_value e coverage ?pkg1 h1")
    case (Inl err)
    then show ?thesis by (simp add: after_parse_def)
  next
    case (Inr st)
    obtain pkg2 h2 where st: "st = (pkg2, h2)" by (cases st)
    note f = update_coverageView_value_frame[OF Inr[unfolded st]]
    show ?thesis
      using Inr st f by (simp add: after_parse_def split: sum.split)
  qed
  then show "coverages (fst (snd (after_parse e textEditor pkg h1 coverage)))
             = (coverages pkg)(textEditor \<mapsto> coverage)"
    "exec_calls (snd (snd (after_parse e textEditor pkg h1 coverage))) = exec_calls h1"
    "spawnedServers (fst (snd (after_parse e textEditor pkg h1 coverage))) = spawnedServers pkg"
    "executablePath (fst (snd (after_parse e textEditor pkg h1 coverage))) = executablePath pkg"
    "fst (after_parse e textEditor pkg h1 coverage) \<noteq> Inr Null"
    by simp_all
qed

lemma after_parse_Report:
  "after_parse e textEditor pkg h1 (Report report)
   = (Inr (Messages (if showUncovered pkg then toCoverageLinterMessages e report else [])),
      update_coverageView report
        (pkg\<lparr>coverages := (coverages pkg)(textEditor \<mapsto> Report report)\<rparr>) h1)"
proof -
  obtain pkg2 h2 where u: "update_coverageView report
      (pkg\<lparr>coverages := (coverages pkg)(textEditor \<mapsto> Report report)\<rparr>) h1 = (pkg2, h2)"
    by (cases "update_coverageView report
      (pkg\<lparr>coverages := (coverages pkg)(textEditor \<mapsto> Report report)\<rparr>) h1")
  have "showUncovered pkg2 = showUncovered pkg"
    using update_coverageView_fields(3)[of report
        "pkg\<lparr>coverages := (coverages pkg)(textEditor \<mapsto> Report report)\<rparr>" h1]
    by (simp add: u)
  then show ?thesis
    by (simp add: after_parse_def update_coverageView_value_def messages_for_def u)
qed

lemma lint_parsed_value:
  assumes "\<not> inappropriate e textEditor pkg"
    and "exec e (exec_calls h) (lint_call e textEditor pkg) = Resolved (Some result)"
    and "JSON_parse e result = Inr coverage"
  shows "lint e textEditor pkg h
         = Some (after_parse e textEditor pkg (record_call (lint_call e textEditor pkg) h)
                   coverage)"
  using assms by (subst lint_unfold) simp

lemma lint_parsed:
  assumes "\<not> inappropriate e textEditor pkg"
    and "exec e (exec_calls h) (lint_call e textEditor pkg) = Resolved (Some result)"
    and "JSON_parse e result = Inr (Report coverage)"
  shows "lint e textEditor pkg h
         = Some (Inr (Messages (if showUncovered pkg then toCoverageLinterMessages e coverage
                                else [])),
                 update_coverageView coverage
                   (pkg\<lparr>coverages := (coverages pkg)(textEditor \<mapsto> Report coverage)\<rparr>)
                   (record_call (lint_call e textEditor pkg) h))"
  by (simp only: lint_parsed_value[OF assms] after_parse_Report)

lemma lint_retry:
  assumes "\<not> inappropriate e textEditor pkg"
    and "exec e (exec_calls h) (lint_call e textEditor pkg) = Rejected error"
    and "has_init_marker e error \<or> has_rechecking_marker e error"
  shows "lint e textEditor pkg h
         = lint e textEditor (note_spawned e textEditor pkg error)
             (record_call (lint_call e textEditor pkg) h)"
  using assms by (subst lint_unfold) simp

lemma lint_not_found:
  assumes "\<not> inappropriate e textEditor pkg"
    and "exec e (exec_calls h) (lint_call e textEditor pkg) = Rejected error"
    and "\<not> has_init_marker e error" "\<not> has_rechecking_marker e error"
    and "code error = Some ''ENOENT''"
  shows "lint e textEditor pkg h
         = Some (Inl not_found_error, pkg, record_call (lint_call e textEditor pkg) h)"
  using assms by (subst lint_unfold) simp

lemma lint_other_failure:
  assumes "\<not> inappropriate e textEditor pkg"
    and "exec e (exec_calls h) (lint_call e textEditor pkg) = Rejected error"
    and "\<not> has_init_marker e error" "\<not> has_rechecking_marker e error"
    and "code error \<noteq> Some ''ENOENT''"
  shows "lint e textEditor pkg h
         = Some (Inl error, pkg, record_call (lint_call e textEditor pkg) h)"
  using assms by (subst lint_unfold) simp

text \<open>
  Induction over the passes of a call of \<open>lint\<close> that returns: one case for each way a
  pass ends, and one for a pass that retries.
\<close>

lemma lint_pass_induct [consumes 1, case_names inappropriate superseded parse_error parsed
    failure retry]:
  assumes "lint e textEditor pkg h = Some y"
    and "\<And>e textEditor pkg h. inappropriate e textEditor pkg \<Longrightarrow>
           P e textEditor pkg h (Inr (Messages []), pkg, h)"
    and "\<And>e textEditor pkg h. \<not> inappropriate e textEditor pkg \<Longrightarrow>
           exec e (exec_calls h) (lint_call e textEditor pkg) = Resolved None \<Longrightarrow>
           P e textEditor pkg h (Inr Null, pkg, record_call (lint_call e textEditor pkg) h)"
    and "\<And>e textEditor pkg h result err. \<not> inappropriate e textEditor pkg \<Longrightarrow>
           exec e (exec_calls h) (lint_call e textEditor pkg) = Resolved (Some result) \<Longrightarrow>
           JSON_parse e result = Inl err \<Longrightarrow>
           P e textEditor pkg h (Inl err, pkg, record_call (lint_call e textEditor pkg) h)"
    and "\<And>e textEditor pkg h result coverage. \<not> inappropriate e textEditor pkg \<Longrightarrow>
           exec e (exec_calls h) (lint_call e textEditor pkg) = Resolved (Some result) \<Longrightarrow>
           JSON_parse e result = Inr coverage \<Longrightarrow>
           P e textEditor pkg h
             (after_parse e textEditor pkg (record_call (lint_call e textEditor pkg) h)
                coverage)"
    and "\<And>e textEditor pkg h error. \<not> inappropriate e textEditor pkg \<Longrightarrow>
           exec e (exec_calls h) (lint_call e textEditor pkg) = Rejected error \<Longrightarrow>
           \<not> has_init_marker e error \<Longrightarrow> \<not> has_rechecking_marker e error \<Longrightarrow>
           P e textEditor pkg h
             (Inl (if code error = Some ''ENOENT'' then not_found_error else error), pkg,
              record_call (lint_call e textEditor pkg) h)"
    and "\<And>e textEditor pkg h error y. \<not> inappropriate e textEditor pkg \<Longrightarrow>
           exec e (exec_calls h) (lint_call e textEditor pkg) = Rejected error \<Longrightarrow>
           has_init_marker e error \<or> has_rechecking_marker e error \<Longrightarrow>
           P e textEditor (note_spawned e textEditor pkg error)
             (record_call (lint_call e textEditor pkg) h) y \<Longrightarrow>
           P e textEditor pkg h y"
  shows "P e textEditor pkg h y"
proof (rule lint.raw_induct[OF _ assms(1)], goal_cases)
  case (1 f e textEditor pkg h y)
  note IH = 1(1) and body = 1(2)[unfolded lint_body_unfold]
  show ?case
  proof (cases "inappropriate e textEditor pkg")
    case True
    with body have "y = (Inr (Messages []), pkg, h)" by simp
    with True show ?thesis by (simp add: assms(2))
  next
    case False
    show ?thesis
    proof (cases "exec e (exec_calls h) (lint_call e textEditor pkg)")
      case (Resolved out)
      show ?thesis
      proof (cases out)
        case None
        with body False Resolved
        have "y = (Inr Null, pkg, record_call (lint_call e textEditor pkg) h)" by simp
        with False Resolved None show ?thesis by (simp add: assms(3))
      next
        case (Some result)
        show ?thesis
        proof (cases "JSON_parse e result")
          case (Inl err)
          with body False Resolved Some
          have "y = (Inl err, pkg, record_call (lint_call e textEditor pkg) h)" by simp
          with False Resolved Some Inl show ?thesis by (simp add: assms(4))
        next
          case (Inr coverage)
          with body False Resolved Some
          have "y = after_parse e textEditor pkg (record_call (lint_call e textEditor pkg) h)
                      coverage"
            by simp
          with assms(5)[OF False] Resolved Some Inr show ?thesis by simp
        qed
      qed
    next
      case (Rejected error)
      show ?thesis
      proof (cases "has_init_marker e error \<or> has_rechecking_marker e error")
        case True
        with body False Rejected
        have "f e textEditor (note_spawned e textEditor pkg error)
                (record_call (lint_call e textEditor pkg) h) = Some y"
          by simp
        then have "P e textEditor (note_spawned e textEditor pkg error)
                (record_call (lint_call e textEditor pkg) h) y"
          by (rule IH)
        with False Rejected True show ?thesis by (rule assms(7))
      next
        case no: False
        with body False Rejected
        have "y = (Inl (if code error = Some ''ENOENT'' then not_found_error else error), pkg,
                   record_call (lint_call e textEditor pkg) h)"
          by (simp split: if_splits)
        with assms(6)[OF False Rejected] no show ?thesis by simp
      qed
    qed
  qed
qed

section \<open>What a call of the linter does\<close>

lemma record_call_eq: "record_call c h = h\<lparr>exec_calls := exec_calls h @ [c]\<rparr>"
  by (simp add: record_call_def)

lemma exec_calls_record_call [simp]: "exec_calls (record_call c h) = exec_calls h @ [c]"
  by (simp add: record_call_def)

lemma tooltips_record_call [simp]: "tooltips (record_call c h) = tooltips h"
  by (simp add: record_call_def)

text \<open>
  Claim C8. A call of \<open>lint\<close> with \<open>onlyIfAppropriate\<close> set, for a document from whose
  directory the upward search finds no \<open>.flowconfig\<close>, returns the empty list of messages,
  an ordinary return and not a thrown error, and leaves the package and the host as they
  were: no invocation of the checker is added to the host's record.
\<close>

theorem lint_without_config_returns_empty:
  assumes "onlyIfAppropriate pkg"
    and "\<not> truthy (findCachedAsync e (Path_dirname e (getPath textEditor)) ''.flowconfig'')"
  shows "lint e textEditor pkg h = Some (Inr (Messages []), pkg, h)"
proof -
  from assms have "inappropriate e textEditor pkg"
    by (simp add: inappropriate_def lint_configFile_def)
  then show ?thesis by (rule lint_inappropriate)
qed

text \<open>
  Claim C3. A call of \<open>lint\<close> whose invocation resolves to an output that parses to a
  report returns a list of messages and stores the report in the cache under the
  document. With \<open>showUncovered\<close> false the list is empty, whatever the report's
  \<open>uncoveredLocations\<close>; with \<open>showUncovered\<close> true it has one message for each region of
  \<open>uncoveredLocations\<close>, in order, located at the region.
\<close>

theorem lint_messages_follow_showUncovered:
  assumes "\<not> inappropriate e textEditor pkg"
    and "exec e (exec_calls h) (lint_call e textEditor pkg) = Resolved (Some result)"
    and "JSON_parse e result = Inr (Report coverage)"
  shows "\<exists>ms pkg' h'. lint e textEditor pkg h = Some (Inr (Messages ms), pkg', h')
           \<and> coverages pkg' = (coverages pkg)(textEditor \<mapsto> Report coverage)
           \<and> (\<not> showUncovered pkg \<longrightarrow> ms = [])
           \<and> (showUncovered pkg \<longrightarrow>
                length ms = length (uncoveredLocations coverage)
                \<and> map location ms = uncoveredLocations coverage)"
proof -
  let ?ms = "if showUncovered pkg then toCoverageLinterMessages e coverage else []"
  let ?st = "update_coverageView coverage
               (pkg\<lparr>coverages := (coverages pkg)(textEditor \<mapsto> Report coverage)\<rparr>)
               (record_call (lint_call e textEditor pkg) h)"
  have "lint e textEditor pkg h = Some (Inr (Messages ?ms), fst ?st, snd ?st)"
    using lint_parsed[OF assms] by simp
  moreover have "coverages (fst ?st) = (coverages pkg)(textEditor \<mapsto> Report coverage)"
    by simp
  moreover have "\<not> showUncovered pkg \<longrightarrow> ?ms = []" by simp
  moreover have "showUncovered pkg \<longrightarrow>
                length ?ms = length (uncoveredLocations coverage)
                \<and> map location ?ms = uncoveredLocations coverage"
    by (simp add: toCoverageLinterMessages_def comp_def)
  ultimately show ?thesis by blast
qed

text \<open>
  Claim C4, amended. When the invocation fails with an error whose text has neither
  marker, \<open>lint\<close> does not retry: if the error's code is \<open>ENOENT\<close> it throws the error
  \<open>Unable to find `flow` executable.\<close>, and otherwise it throws the invocation's error
  unchanged. The package is left as it was.
\<close>

theorem lint_failure_without_marker:
  assumes "\<not> inappropriate e textEditor pkg"
    and "exec e (exec_calls h) (lint_call e textEditor pkg) = Rejected error"
    and "\<not> has_init_marker e error" and "\<not> has_rechecking_marker e error"
  shows "(code error = Some ''ENOENT'' \<longrightarrow>
            lint e textEditor pkg h
            = Some (Inl (Error ''Unable to find `flow` executable.'' None), pkg,
                    h\<lparr>exec_calls := exec_calls h @ [lint_call e textEditor pkg]\<rparr>))
       \<and> (code error \<noteq> Some ''ENOENT'' \<longrightarrow>
            lint e textEditor pkg h
            = Some (Inl error, pkg,
                    h\<lparr>exec_calls := exec_calls h @ [lint_call e textEditor pkg]\<rparr>))"
  using lint_not_found[OF assms] lint_other_failure[OF assms]
  by (simp only: record_call_eq not_found_error_def) blast

lemma lint_retry_n:
  assumes "\<not> inappropriate e textEditor pkg"
    and "\<forall>i<n. \<exists>error.
           exec e (exec_calls h @ replicate i (lint_call e textEditor pkg))
             (lint_call e textEditor pkg) = Rejected error
           \<and> (has_init_marker e error \<or> has_rechecking_marker e error)"
  shows "\<exists>pkg'. lint e textEditor pkg h
                 = lint e textEditor pkg'
                     (h\<lparr>exec_calls := exec_calls h @ replicate n (lint_call e textEditor pkg)\<rparr>)
               \<and> pkg'\<lparr>spawnedServers := spawnedServers pkg\<rparr> = pkg"
  using assms
proof (induction n arbitrary: pkg h)
  case 0
  have "lint e textEditor pkg h
        = lint e textEditor pkg (h\<lparr>exec_calls := exec_calls h @ replicate 0 (lint_call e textEditor pkg)\<rparr>)"
    by simp
  moreover have "pkg\<lparr>spawnedServers := spawnedServers pkg\<rparr> = pkg" by simp
  ultimately show ?case by blast
next
  case (Suc n)
  let ?c = "lint_call e textEditor pkg"
  from Suc.prems(2) obtain error where
    rej: "exec e (exec_calls h) ?c = Rejected error"
    and busy: "has_init_marker e error \<or> has_rechecking_marker e error"
    by force
  let ?pkg1 = "note_spawned e textEditor pkg error"
  let ?h1 = "record_call ?c h"
  have step: "lint e textEditor pkg h = lint e textEditor ?pkg1 ?h1"
    by (rule lint_retry[OF Suc.prems(1) rej busy])
  have app: "\<not> inappropriate e textEditor ?pkg1" using Suc.prems(1) by simp
  have rest: "\<forall>i<n. \<exists>error.
           exec e (exec_calls ?h1 @ replicate i (lint_call e textEditor ?pkg1))
             (lint_call e textEditor ?pkg1) = Rejected error
           \<and> (has_init_marker e error \<or> has_rechecking_marker e error)"
  proof (intro allI impI)
    fix i assume "i < n"
    then have "Suc i < Suc n" by simp
    with Suc.prems(2) obtain err where
      "exec e (exec_calls h @ replicate (Suc i) ?c) ?c = Rejected err"
      "has_init_marker e err \<or> has_rechecking_marker e err"
      by blast
    then show "\<exists>error.
           exec e (exec_calls ?h1 @ replicate i (lint_call e textEditor ?pkg1))
             (lint_call e textEditor ?pkg1) = Rejected error
           \<and> (has_init_marker e error \<or> has_rechecking_marker e error)"
      by auto
  qed
  from Suc.IH[OF app rest] obtain pkg' where
    ih: "lint e textEditor ?pkg1 ?h1
         = lint e textEditor pkg'
             (?h1\<lparr>exec_calls := exec_calls ?h1 @ replicate n (lint_call e textEditor ?pkg1)\<rparr>)"
    and fr: "pkg'\<lparr>spawnedServers := spawnedServers ?pkg1\<rparr> = ?pkg1"
    by blast
  have h: "?h1\<lparr>exec_calls := exec_calls ?h1 @ replicate n (lint_call e textEditor ?pkg1)\<rparr>
           = h\<lparr>exec_calls := exec_calls h @ replicate (Suc n) ?c\<rparr>"
    by (simp add: record_call_def replicate_append_same)
  have "pkg'\<lparr>spawnedServers := spawnedServers pkg\<rparr>
        = (pkg'\<lparr>spawnedServers := spawnedServers ?pkg1\<rparr>)\<lparr>spawnedServers := spawnedServers pkg\<rparr>"
    by simp
  also have "\<dots> = pkg" by (simp only: fr note_spawned_frame)
  finally have "pkg'\<lparr>spawnedServers := spawnedServers pkg\<rparr> = pkg" .
  moreover have "lint e textEditor pkg h
     = lint e textEditor pkg' (h\<lparr>exec_calls := exec_calls h @ replicate (Suc n) ?c\<rparr>)"
    by (simp only: step ih h)
  ultimately show ?case by blast
qed

lemma lint_retry_once_then_parsed:
  assumes "\<not> inappropriate e textEditor pkg"
    and "exec e (exec_calls h) (lint_call e textEditor pkg) = Rejected error"
    and "has_init_marker e error \<or> has_rechecking_marker e error"
    and "exec e (exec_calls h @ [lint_call e textEditor pkg]) (lint_call e textEditor pkg)
         = Resolved (Some result)"
    and "JSON_parse e result = Inr (Report coverage)"
  shows "lint e textEditor pkg h
         = Some (Inr (Messages (if showUncovered pkg then toCoverageLinterMessages e coverage
                                else [])),
                 update_coverageView coverage
                   ((note_spawned e textEditor pkg error)
                      \<lparr>coverages := (coverages pkg)(textEditor \<mapsto> Report coverage)\<rparr>)
                   (record_call (lint_call e textEditor pkg)
                      (record_call (lint_call e textEditor pkg) h)))"
proof -
  let ?c = "lint_call e textEditor pkg"
  let ?pkg1 = "note_spawned e textEditor pkg error"
  have app: "\<not> inappropriate e textEditor ?pkg1" using assms(1) by simp
  have ex: "exec e (exec_calls (record_call ?c h)) (lint_call e textEditor ?pkg1)
            = Resolved (Some result)"
    using assms(4) by simp
  have "lint e textEditor pkg h = lint e textEditor ?pkg1 (record_call ?c h)"
    by (rule lint_retry[OF assms(1,2,3)])
  also have "\<dots> = Some (Inr (Messages (if showUncovered ?pkg1
                                           then toCoverageLinterMessages e coverage else [])),
                 update_coverageView coverage
                   (?pkg1\<lparr>coverages := (coverages ?pkg1)(textEditor \<mapsto> Report coverage)\<rparr>)
                   (record_call (lint_call e textEditor ?pkg1) (record_call ?c h)))"
    by (rule lint_parsed[OF app ex assms(5)])
  finally show ?thesis by simp
qed

text \<open>
  Claim C2. A pass of \<open>lint\<close> whose invocation fails with an error whose text has the
  initializing marker or the rechecking marker is followed at once by another pass, with
  the same invocation, and so on without a limit: whatever the number \<open>n\<close>, after \<open>n\<close> such
  failures in a row the call is the call of \<open>lint\<close> in a state that has the \<open>n\<close> invocations
  on record and differs in the package at most in the recorded servers. When the
  invocation fails once with the initializing marker and then resolves to an output that
  parses to a report, the call returns the messages of that report, and the host has
  exactly two invocations more.
\<close>

theorem lint_retries_while_busy:
  assumes "\<not> inappropriate e textEditor pkg"
  shows "((\<forall>i<n. \<exists>error.
             exec e (exec_calls h @ replicate i (lint_call e textEditor pkg))
               (lint_call e textEditor pkg) = Rejected error
             \<and> (has_init_marker e error \<or> has_rechecking_marker e error))
          \<longrightarrow> (\<exists>pkg'. lint e textEditor pkg h
                       = lint e textEditor pkg'
                           (h\<lparr>exec_calls :=
                                exec_calls h @ replicate n (lint_call e textEditor pkg)\<rparr>)
                     \<and> pkg'\<lparr>spawnedServers := spawnedServers pkg\<rparr> = pkg))
       \<and> (\<forall>error result coverage.
             exec e (exec_calls h) (lint_call e textEditor pkg) = Rejected error
             \<and> has_init_marker e error
             \<and> exec e (exec_calls h @ [lint_call e textEditor pkg]) (lint_call e textEditor pkg)
                 = Resolved (Some result)
             \<and> JSON_parse e result = Inr (Report coverage)
          \<longrightarrow> (\<exists>pkg' h'. lint e textEditor pkg h
                          = Some (Inr (Messages (if showUncovered pkg
                                                 then toCoverageLinterMessages e coverage
                                                 else [])), pkg', h')
                     \<and> exec_calls h'
                         = exec_calls h @ [lint_call e textEditor pkg, lint_call e textEditor pkg]))"
proof (intro conjI impI allI)
  assume "\<forall>i<n. \<exists>error.
             exec e (exec_calls h @ replicate i (lint_call e textEditor pkg))
               (lint_call e textEditor pkg) = Rejected error
             \<and> (has_init_marker e error \<or> has_rechecking_marker e error)"
  then show "\<exists>pkg'. lint e textEditor pkg h
                       = lint e textEditor pkg'
                           (h\<lparr>exec_calls :=
                                exec_calls h @ replicate n (lint_call e textEditor pkg)\<rparr>)
                     \<and> pkg'\<lparr>spawnedServers := spawnedServers pkg\<rparr> = pkg"
    by (rule lint_retry_n[OF assms])
next
  fix error result coverage
  let ?c = "lint_call e textEditor pkg"
  assume a: "exec e (exec_calls h) ?c = Rejected error
             \<and> has_init_marker e error
             \<and> exec e (exec_calls h @ [?c]) ?c = Resolved (Some result)
             \<and> JSON_parse e result = Inr (Report coverage)"
  let ?st = "update_coverageView coverage
               ((note_spawned e textEditor pkg error)
                  \<lparr>coverages := (coverages pkg)(textEditor \<mapsto> Report coverage)\<rparr>)
               (record_call ?c (record_call ?c h))"
  from a have busy: "has_init_marker e error \<or> has_rechecking_marker e error" by simp
  have "lint e textEditor pkg h
        = Some (Inr (Messages (if showUncovered pkg then toCoverageLinterMessages e coverage
                               else [])), fst ?st, snd ?st)"
    using lint_retry_once_then_parsed[OF assms conjunct1[OF a] busy] a by simp
  moreover have "exec_calls (snd ?st) = exec_calls h @ [?c, ?c]" by simp
  ultimately show "\<exists>pkg' h'. lint e textEditor pkg h
                          = Some (Inr (Messages (if showUncovered pkg
                                                 then toCoverageLinterMessages e coverage
                                                 else [])), pkg', h')
                     \<and> exec_calls h' = exec_calls h @ [?c, ?c]"
    by blast
qed

lemma lint_cache_frame:
  assumes "lint e textEditor pkg h = Some y"
  shows "if inappropriate e textEditor pkg then coverages (fst (snd y)) = coverages pkg
         else (\<exists>n. exec_calls (snd (snd y))
                      = exec_calls h @ replicate (Suc n) (lint_call e textEditor pkg)
                  \<and> (case exec e (exec_calls h @ replicate n (lint_call e textEditor pkg))
                             (lint_call e textEditor pkg) of
                       Resolved None \<Rightarrow>
                         fst y = Inr Null \<and> coverages (fst (snd y)) = coverages pkg
                     | Resolved (Some result) \<Rightarrow>
                         (case JSON_parse e result of
                            Inl err \<Rightarrow>
                              fst y = Inl err \<and> coverages (fst (snd y)) = coverages pkg
                          | Inr coverage \<Rightarrow>
                              coverages (fst (snd y)) = (coverages pkg)(textEditor \<mapsto> coverage))
                     | Rejected error \<Rightarrow>
                         fst y = Inl (if code error = Some ''ENOENT'' then not_found_error
                                      else error)
                         \<and> coverages (fst (snd y)) = coverages pkg))"
  using assms
proof (induction rule: lint_pass_induct)
  case (inappropriate e textEditor pkg h)
  then show ?case by simp
next
  case (superseded e textEditor pkg h)
  let ?c = "lint_call e textEditor pkg"
  have "exec_calls (record_call ?c h) = exec_calls h @ replicate (Suc 0) ?c" by simp
  moreover have "exec e (exec_calls h @ replicate 0 ?c) ?c = Resolved None"
    using superseded(2) by simp
  ultimately show ?case using superseded(1)
    by (intro iffD2[OF if_not_P] exI[of _ 0]) simp_all
next
  case (parse_error e textEditor pkg h result err)
  let ?c = "lint_call e textEditor pkg"
  have "exec_calls (record_call ?c h) = exec_calls h @ replicate (Suc 0) ?c" by simp
  moreover have "exec e (exec_calls h @ replicate 0 ?c) ?c = Resolved (Some result)"
    using parse_error(2) by simp
  ultimately show ?case using parse_error(1,3)
    by (intro iffD2[OF if_not_P] exI[of _ 0]) simp_all
next
  case (parsed e textEditor pkg h result coverage)
  let ?c = "lint_call e textEditor pkg"
  let ?y = "after_parse e textEditor pkg (record_call ?c h) coverage"
  have "exec_calls (snd (snd ?y)) = exec_calls h @ replicate (Suc 0) ?c"
    by (simp add: after_parse_frame)
  moreover have "exec e (exec_calls h @ replicate 0 ?c) ?c = Resolved (Some result)"
    using parsed(2) by simp
  moreover have "coverages (fst (snd ?y)) = (coverages pkg)(textEditor \<mapsto> coverage)"
    by (rule after_parse_frame)
  ultimately show ?case using parsed(1,3)
    by (intro iffD2[OF if_not_P] exI[of _ 0]) simp_all
next
  case (failure e textEditor pkg h error)
  let ?c = "lint_call e textEditor pkg"
  have "exec_calls (record_call ?c h) = exec_calls h @ replicate (Suc 0) ?c" by simp
  moreover have "exec e (exec_calls h @ replicate 0 ?c) ?c = Rejected error"
    using failure(2) by simp
  ultimately show ?case using failure(1)
    by (intro iffD2[OF if_not_P] exI[of _ 0]) simp_all
next
  case (retry e textEditor pkg h error y)
  let ?c = "lint_call e textEditor pkg"
  let ?p = "note_spawned e textEditor pkg error"
  from retry(4) retry(1) obtain n where
    a: "exec_calls (snd (snd y)) = exec_calls (record_call ?c h) @ replicate (Suc n) ?c"
    and b: "case exec e (exec_calls (record_call ?c h) @ replicate n ?c) ?c of
              Resolved None \<Rightarrow> fst y = Inr Null \<and> coverages (fst (snd y)) = coverages ?p
            | Resolved (Some result) \<Rightarrow>
                (case JSON_parse e result of
                   Inl err \<Rightarrow> fst y = Inl err \<and> coverages (fst (snd y)) = coverages ?p
                 | Inr coverage \<Rightarrow>
                     coverages (fst (snd y)) = (coverages ?p)(textEditor \<mapsto> coverage))
            | Rejected error \<Rightarrow>
                fst y = Inl (if code error = Some ''ENOENT'' then not_found_error else error)
                \<and> coverages (fst (snd y)) = coverages ?p"
    by auto
  have cv: "coverages ?p = coverages pkg" by simp
  have a': "exec_calls (snd (snd y)) = exec_calls h @ replicate (Suc (Suc n)) ?c"
    using a by (simp add: replicate_append_same)
  have e: "exec_calls (record_call ?c h) @ replicate n ?c = exec_calls h @ replicate (Suc n) ?c"
    by (simp add: replicate_append_same)
  from retry(1) a' b[unfolded e cv] show ?case
    by (intro iffD2[OF if_not_P] exI[of _ "Suc n"] conjI) simp_all
qed

text \<open>
  Claim C6, amended. The cache entry of a document is written exactly by a call of \<open>lint\<close>
  for that document whose last invocation resolved to an output that \<open>JSON.parse\<close>
  accepted, and it then holds the value that \<open>JSON.parse\<close> returned, whether or not the call
  goes on to fail in the view or in the conversion to messages. A call whose last
  invocation is rejected (it throws that error, or the error for a missing executable),
  resolves to \<open>null\<close> or resolves to an output that \<open>JSON.parse\<close> rejects, and a call that
  returns before invoking the checker, leaves the whole cache as it was. No call touches
  the entry of another document, and a pass that retries hands the cache on unchanged.
\<close>

theorem cache_written_when_output_parses:
  "(lint e textEditor pkg h = Some (r, pkg', h') \<longrightarrow>
      (inappropriate e textEditor pkg \<longrightarrow> coverages pkg' = coverages pkg)
      \<and> (\<not> inappropriate e textEditor pkg \<longrightarrow>
           (\<exists>n. exec_calls h' = exec_calls h @ replicate (Suc n) (lint_call e textEditor pkg)
              \<and> (case exec e (exec_calls h @ replicate n (lint_call e textEditor pkg))
                         (lint_call e textEditor pkg) of
                   Resolved None \<Rightarrow> r = Inr Null \<and> coverages pkg' = coverages pkg
                 | Resolved (Some result) \<Rightarrow>
                     (case JSON_parse e result of
                        Inl err \<Rightarrow> r = Inl err \<and> coverages pkg' = coverages pkg
                      | Inr coverage \<Rightarrow>
                          coverages pkg' = (coverages pkg)(textEditor \<mapsto> coverage))
                 | Rejected error \<Rightarrow>
                     r = Inl (if code error = Some ''ENOENT'' then not_found_error else error)
                     \<and> coverages pkg' = coverages pkg)))
      \<and> (\<forall>ed. ed \<noteq> textEditor \<longrightarrow> coverages pkg' ed = coverages pkg ed))
   \<and> (\<forall>error. \<not> inappropriate e textEditor pkg
         \<and> exec e (exec_calls h) (lint_call e textEditor pkg) = Rejected error
         \<and> (has_init_marker e error \<or> has_rechecking_marker e error) \<longrightarrow>
         lint e textEditor pkg h
         = lint e textEditor (note_spawned e textEditor pkg error)
             (record_call (lint_call e textEditor pkg) h)
         \<and> coverages (note_spawned e textEditor pkg error) = coverages pkg)"
proof (intro conjI impI allI)
  assume l: "lint e textEditor pkg h = Some (r, pkg', h')"
  note fr = lint_cache_frame[OF l, unfolded fst_conv snd_conv]
  {
    assume "inappropriate e textEditor pkg"
    with fr show "coverages pkg' = coverages pkg" by simp
  }
  {
    assume "\<not> inappropriate e textEditor pkg"
    with fr show "\<exists>n. exec_calls h' = exec_calls h @ replicate (Suc n) (lint_call e textEditor pkg)
              \<and> (case exec e (exec_calls h @ replicate n (lint_call e textEditor pkg))
                         (lint_call e textEditor pkg) of
                   Resolved None \<Rightarrow> r = Inr Null \<and> coverages pkg' = coverages pkg
                 | Resolved (Some result) \<Rightarrow>
                     (case JSON_parse e result of
                        Inl err \<Rightarrow> r = Inl err \<and> coverages pkg' = coverages pkg
                      | Inr coverage \<Rightarrow>
                          coverages pkg' = (coverages pkg)(textEditor \<mapsto> coverage))
                 | Rejected error \<Rightarrow>
                     r = Inl (if code error = Some ''ENOENT'' then not_found_error else error)
                     \<and> coverages pkg' = coverages pkg)"
      by simp
  }
  {
    fix ed assume "ed \<noteq> textEditor"
    show "coverages pkg' ed = coverages pkg ed"
    proof (cases "inappropriate e textEditor pkg")
      case True
      with fr show ?thesis by simp
    next
      case False
      with fr obtain n where
        x: "case exec e (exec_calls h @ replicate n (lint_call e textEditor pkg))
                   (lint_call e textEditor pkg) of
              Resolved None \<Rightarrow> r = Inr Null \<and> coverages pkg' = coverages pkg
            | Resolved (Some result) \<Rightarrow>
                (case JSON_parse e result of
                   Inl err \<Rightarrow> r = Inl err \<and> coverages pkg' = coverages pkg
                 | Inr coverage \<Rightarrow>
                     coverages pkg' = (coverages pkg)(textEditor \<mapsto> coverage))
            | Rejected error \<Rightarrow>
                r = Inl (if code error = Some ''ENOENT'' then not_found_error else error)
                \<and> coverages pkg' = coverages pkg"
        by auto
      have "coverages pkg' = coverages pkg
            \<or> (\<exists>coverage. coverages pkg' = (coverages pkg)(textEditor \<mapsto> coverage))"
        using x by (auto split: exec_outcome.splits option.splits sum.splits)
      with \<open>ed \<noteq> textEditor\<close> show ?thesis by auto
    qed
  }
next
  fix error
  assume a: "\<not> inappropriate e textEditor pkg
         \<and> exec e (exec_calls h) (lint_call e textEditor pkg) = Rejected error
         \<and> (has_init_marker e error \<or> has_rechecking_marker e error)"
  then show "lint e textEditor pkg h
         = lint e textEditor (note_spawned e textEditor pkg error)
             (record_call (lint_call e textEditor pkg) h)"
    by (intro lint_retry) simp_all
next
  fix error
  show "coverages (note_spawned e textEditor pkg error) = coverages pkg" by simp
qed

lemma lint_spawnedServers_grow:
  assumes "lint e textEditor pkg h = Some y"
  shows "set (spawnedServers pkg) \<subseteq> set (spawnedServers (fst (snd y)))
         \<and> executablePath (fst (snd y)) = executablePath pkg"
  using assms
proof (induction rule: lint_pass_induct)
  case (parsed e textEditor pkg h result coverage)
  then show ?case by (simp add: after_parse_frame)
next
  case (retry e textEditor pkg h error y)
  with note_spawned_grows[of pkg e textEditor error] show ?case by auto
qed simp_all

lemma deactivate_calls:
  "exec_calls (deactivate e pkg h)
   = exec_calls h
     @ map (\<lambda>rootDirectory. stop_call (stop_executable e pkg rootDirectory) rootDirectory)
         (spawnedServers pkg)"
proof -
  have "exec_calls (foldl (\<lambda>h rootDirectory.
              record_call (stop_call (stop_executable e pkg rootDirectory) rootDirectory) h)
            h xs)
        = exec_calls h
          @ map (\<lambda>rootDirectory. stop_call (stop_executable e pkg rootDirectory) rootDirectory) xs"
    for xs
    by (induction xs arbitrary: h) simp_all
  then show ?thesis by (simp only: deactivate_def)
qed

lemma deactivate_stops:
  "rootDirectory \<in> set (spawnedServers pkg) \<Longrightarrow>
     stop_call (stop_executable e pkg rootDirectory) rootDirectory
       \<in> set (exec_calls (deactivate e pkg h))"
  by (simp add: deactivate_calls)

text \<open>
  Claim C9, amended. When \<open>onlyIfAppropriate\<close> is set, the upward search has found the
  project's \<open>.flowconfig\<close> and the invocation fails with an error whose text has the
  initializing marker, the directory of that \<open>.flowconfig\<close> is added to \<open>spawnedServers\<close>
  before the retry; it is still there when the call returns, and \<open>deactivate\<close> then asks
  for a \<open>stop\<close> invocation in that directory.
\<close>

theorem spawned_server_recorded_when_config_known:
  assumes "onlyIfAppropriate pkg"
    and "findCachedAsync e (Path_dirname e (getPath textEditor)) ''.flowconfig''
         = Some configFile"
    and "configFile \<noteq> []"
    and "exec e (exec_calls h) (lint_call e textEditor pkg) = Rejected error"
    and "has_init_marker e error"
  shows "lint e textEditor pkg h
         = lint e textEditor
             (pkg\<lparr>spawnedServers := Set_add (Path_dirname e configFile) (spawnedServers pkg)\<rparr>)
             (h\<lparr>exec_calls := exec_calls h @ [lint_call e textEditor pkg]\<rparr>)
       \<and> (\<forall>r pkg' h'. lint e textEditor pkg h = Some (r, pkg', h') \<longrightarrow>
            Path_dirname e configFile \<in> set (spawnedServers pkg')
            \<and> (\<forall>h''. stop_call (stop_executable e pkg' (Path_dirname e configFile))
                        (Path_dirname e configFile)
                      \<in> set (exec_calls (deactivate e pkg' h''))))"
proof -
  let ?pkg1 = "pkg\<lparr>spawnedServers := Set_add (Path_dirname e configFile) (spawnedServers pkg)\<rparr>"
  let ?h1 = "h\<lparr>exec_calls := exec_calls h @ [lint_call e textEditor pkg]\<rparr>"
  have cf: "lint_configFile e textEditor pkg = Some configFile"
    using assms(1,2) by (simp add: lint_configFile_def)
  then have app: "\<not> inappropriate e textEditor pkg"
    using assms(3) by (simp add: inappropriate_def truthy_def)
  have ns: "note_spawned e textEditor pkg error = ?pkg1"
    using cf assms(3,5) by (simp add: note_spawned_def truthy_def)
  have step: "lint e textEditor pkg h = lint e textEditor ?pkg1 ?h1"
    using lint_retry[OF app assms(4)] assms(5) by (simp only: ns record_call_eq) simp
  have "Path_dirname e configFile \<in> set (spawnedServers pkg')
        \<and> (\<forall>h''. stop_call (stop_executable e pkg' (Path_dirname e configFile))
                        (Path_dirname e configFile)
                      \<in> set (exec_calls (deactivate e pkg' h'')))"
    if l: "lint e textEditor pkg h = Some (r, pkg', h')" for r pkg' h'
  proof -
    from l step have "lint e textEditor ?pkg1 ?h1 = Some (r, pkg', h')" by simp
    from lint_spawnedServers_grow[OF this]
    have "set (spawnedServers ?pkg1) \<subseteq> set (spawnedServers pkg')" by simp
    moreover have "Path_dirname e configFile \<in> set (spawnedServers ?pkg1)"
      by (simp add: Set_add_def)
    ultimately have m: "Path_dirname e configFile \<in> set (spawnedServers pkg')" by blast
    then show ?thesis using deactivate_stops[OF m] by blast
  qed
  with step show ?thesis by blast
qed

text \<open>
  Claim C5. The executable locator returns the configured \<open>executablePath\<close> when that is
  not empty; otherwise the path that the upward search from the starting directory finds
  for \<open>node_modules/.bin/flow\<close>, when it finds one; otherwise the command name \<open>flow\<close>. It
  is a total function of the configuration and the search: it returns a path for every
  starting directory and has no failing case.
\<close>

theorem getExecutablePath_resolution:
  "(executablePath pkg \<noteq> [] \<longrightarrow> getExecutablePath e pkg fileDirectory = executablePath pkg)
   \<and> (executablePath pkg = [] \<longrightarrow>
        (\<forall>p. findCachedAsync e fileDirectory ''node_modules/.bin/flow'' = Some p \<and> p \<noteq> []
              \<longrightarrow> getExecutablePath e pkg fileDirectory = p)
        \<and> (\<not> truthy (findCachedAsync e fileDirectory ''node_modules/.bin/flow'')
              \<longrightarrow> getExecutablePath e pkg fileDirectory = ''flow''))"
  by (auto simp add: getExecutablePath_def defaultFlowBinLocation_def truthy_def
        split: option.splits)

lemma lint_frame_when_null:
  assumes "lint e textEditor pkg h = Some y"
  shows "fst y = Inr Null \<longrightarrow>
           (fst (snd y))\<lparr>spawnedServers := spawnedServers pkg\<rparr> = pkg
           \<and> tooltips (snd (snd y)) = tooltips h"
  using assms
proof (induction rule: lint_pass_induct)
  case (parsed e textEditor pkg h result coverage)
  then show ?case by (simp add: after_parse_frame)
next
  case (retry e textEditor pkg h error y)
  let ?pkg1 = "note_spawned e textEditor pkg error"
  show ?case
  proof
    assume n: "fst y = Inr Null"
    with retry(4) have ih: "(fst (snd y))\<lparr>spawnedServers := spawnedServers ?pkg1\<rparr> = ?pkg1"
      and tt: "tooltips (snd (snd y)) = tooltips h"
      by simp_all
    have "(fst (snd y))\<lparr>spawnedServers := spawnedServers pkg\<rparr>
          = ((fst (snd y))\<lparr>spawnedServers := spawnedServers ?pkg1\<rparr>)
              \<lparr>spawnedServers := spawnedServers pkg\<rparr>"
      by simp
    also have "\<dots> = pkg" by (simp only: ih note_spawned_frame)
    finally show "(fst (snd y))\<lparr>spawnedServers := spawnedServers pkg\<rparr> = pkg
                  \<and> tooltips (snd (snd y)) = tooltips h"
      using tt by simp
  qed
qed simp_all

text \<open>
  Claim C10. A call of \<open>lint\<close> whose invocation resolves to \<open>null\<close> returns \<open>null\<close> and
  leaves the package as it was (the cache, the view, the recorded servers) and the
  host's tooltips as they were, so that the view's \<open>update\<close> has not run; the host has the
  one invocation more. Whenever a call returns \<open>null\<close>, also after retries, the cache and
  the view are as they were, no tooltip has been added, and the package differs at most
  in the recorded servers.
\<close>

theorem lint_superseded_changes_nothing:
  "(\<not> inappropriate e textEditor pkg
      \<and> exec e (exec_calls h) (lint_call e textEditor pkg) = Resolved None \<longrightarrow>
      lint e textEditor pkg h
      = Some (Inr Null, pkg, h\<lparr>exec_calls := exec_calls h @ [lint_call e textEditor pkg]\<rparr>))
   \<and> (lint e textEditor pkg h = Some (Inr Null, pkg', h') \<longrightarrow>
        coverages pkg' = coverages pkg \<and> coverageView pkg' = coverageView pkg
        \<and> tooltips h' = tooltips h
        \<and> pkg'\<lparr>spawnedServers := spawnedServers pkg\<rparr> = pkg)"
proof (intro conjI impI)
  assume a: "\<not> inappropriate e textEditor pkg
      \<and> exec e (exec_calls h) (lint_call e textEditor pkg) = Resolved None"
  show "lint e textEditor pkg h
      = Some (Inr Null, pkg, h\<lparr>exec_calls := exec_calls h @ [lint_call e textEditor pkg]\<rparr>)"
    using lint_superseded[OF conjunct1[OF a] conjunct2[OF a]] by (simp only: record_call_eq)
next
  assume l: "lint e textEditor pkg h = Some (Inr Null, pkg', h')"
  from lint_frame_when_null[OF l]
  have f: "pkg'\<lparr>spawnedServers := spawnedServers pkg\<rparr> = pkg" and t: "tooltips h' = tooltips h"
    by simp_all
  from f have "coverages (pkg'\<lparr>spawnedServers := spawnedServers pkg\<rparr>) = coverages pkg"
    "coverageView (pkg'\<lparr>spawnedServers := spawnedServers pkg\<rparr>) = coverageView pkg"
    by simp_all
  then have c: "coverages pkg' = coverages pkg" "coverageView pkg' = coverageView pkg"
    by simp_all
  show "coverages pkg' = coverages pkg" by (rule c(1))
  show "coverageView pkg' = coverageView pkg" by (rule c(2))
  show "tooltips h' = tooltips h" by (rule t)
  show "pkg'\<lparr>spawnedServers := spawnedServers pkg\<rparr> = pkg" by (rule f)
qed

section \<open>The example project, evaluated\<close>

lemma demo_path [simp]: "getPath demo_editor = ''/proj/src/a.js''"
  by (simp add: demo_editor_def)

lemma demo_dir [simp]: "Path_dirname (demo_env s) ''/proj/src/a.js'' = ''/proj/src''"
  by (simp add: demo_env_def demo_dirname_def)

lemma demo_config_dir [simp]: "Path_dirname (demo_env s) ''/proj/.flowconfig'' = ''/proj''"
  by (simp add: demo_env_def demo_dirname_def)

lemma demo_find_config [simp]:
  "findCachedAsync (demo_env s) ''/proj/src'' ''.flowconfig'' = Some ''/proj/.flowconfig''"
  by (simp add: findCachedAsync_def demo_env_def)

lemma demo_find_bin [simp]:
  "findCachedAsync (demo_env s) ''/proj/src'' defaultFlowBinLocation = None"
  by (simp add: findCachedAsync_def demo_env_def defaultFlowBinLocation_def)

lemma demo_configFile [simp]:
  "lint_configFile (demo_env s) demo_editor pkg
   = (if onlyIfAppropriate pkg then Some ''/proj/.flowconfig'' else None)"
  by (simp add: lint_configFile_def)

lemma demo_appropriate [simp]: "\<not> inappropriate (demo_env s) demo_editor pkg"
  by (simp add: inappropriate_def truthy_def)

lemma demo_call [simp]:
  "lint_call (demo_env s) demo_editor pkg
   = coverage_call (if executablePath pkg \<noteq> [] then executablePath pkg else ''flow'')
       ''/proj/src/a.js'' ''/proj/src''"
  by (simp add: lint_call_def getExecutablePath_def)

lemma demo_exec [simp]: "exec (demo_env s) calls c = script s calls c"
  by (simp add: demo_env_def)

lemma script_first [simp]: "script (x # xs) [] c = x"
  by (simp add: script_def)

lemma script_second [simp]: "script (x # y # xs) [a] c = y"
  by (simp add: script_def)

lemma demo_parse [simp]: "JSON_parse (demo_env s) demo_output = Inr (Report demo_report)"
  by (simp add: demo_env_def)

lemma demo_starting [simp]: "has_init_marker (demo_env s) starting_error"
  by (simp add: has_init_marker_def demo_env_def starting_error_def startsWith_def)

lemma demo_busy_path [simp]: "has_init_marker (demo_env s) busy_path_error"
  by (simp add: has_init_marker_def demo_env_def busy_path_error_def startsWith_def)

lemma demo_missing [simp]:
  "\<not> has_init_marker (demo_env s) missing_error"
  "\<not> has_rechecking_marker (demo_env s) missing_error"
  by (simp_all add: has_init_marker_def has_rechecking_marker_def demo_env_def missing_error_def
        startsWith_def)

lemma demo_timeout [simp]:
  "\<not> has_init_marker (demo_env s) timeout_error"
  "\<not> has_rechecking_marker (demo_env s) timeout_error"
  by (simp_all add: has_init_marker_def has_rechecking_marker_def demo_env_def timeout_error_def
        startsWith_def)

lemma demo_host_calls [simp]: "exec_calls demo_host = []"
  by (simp add: demo_host_def)

section \<open>The claims on the example project\<close>

theorem lint_without_config_returns_empty_witness:
  "onlyIfAppropriate demo_package
   \<and> \<not> truthy (findCachedAsync (demo_env [])
                  (Path_dirname (demo_env []) (getPath (TextEditor 2 ''/tmp/b.js'')))
                  ''.flowconfig'')
   \<and> lint (demo_env []) (TextEditor 2 ''/tmp/b.js'') demo_package demo_host
       = Some (Inr (Messages []), demo_package, demo_host)"
proof -
  have a: "onlyIfAppropriate demo_package" by (simp add: demo_package_def)
  have b: "\<not> truthy (findCachedAsync (demo_env [])
                  (Path_dirname (demo_env []) (getPath (TextEditor 2 ''/tmp/b.js'')))
                  ''.flowconfig'')"
    by (simp add: findCachedAsync_def demo_env_def demo_dirname_def truthy_def)
  from a b lint_without_config_returns_empty[OF a b, of demo_host] show ?thesis by blast
qed

theorem lint_superseded_changes_nothing_witness:
  "\<not> inappropriate (demo_env [Resolved None]) demo_editor demo_package
   \<and> exec (demo_env [Resolved None]) (exec_calls demo_host)
         (lint_call (demo_env [Resolved None]) demo_editor demo_package) = Resolved None
   \<and> lint (demo_env [Resolved None]) demo_editor demo_package demo_host
       = Some (Inr Null, demo_package,
               demo_host\<lparr>exec_calls :=
                 [coverage_call ''flow'' ''/proj/src/a.js'' ''/proj/src'']\<rparr>)
   \<and> lint (demo_env [Rejected starting_error, Resolved None]) demo_editor demo_package demo_host
       = Some (Inr Null, demo_package\<lparr>spawnedServers := [''/proj'']\<rparr>,
               demo_host\<lparr>exec_calls :=
                 [coverage_call ''flow'' ''/proj/src/a.js'' ''/proj/src'',
                  coverage_call ''flow'' ''/proj/src/a.js'' ''/proj/src'']\<rparr>)
   \<and> coverages (demo_package\<lparr>spawnedServers := [''/proj'']\<rparr>) = coverages demo_package
   \<and> coverageView (demo_package\<lparr>spawnedServers := [''/proj'']\<rparr>) = coverageView demo_package
   \<and> tooltips (demo_host\<lparr>exec_calls :=
                 [coverage_call ''flow'' ''/proj/src/a.js'' ''/proj/src'',
                  coverage_call ''flow'' ''/proj/src/a.js'' ''/proj/src'']\<rparr>)
       = tooltips demo_host"
proof -
  let ?c = "coverage_call ''flow'' ''/proj/src/a.js'' ''/proj/src''"
  have a: "\<not> inappropriate (demo_env [Resolved None]) demo_editor demo_package" by simp
  have b: "exec (demo_env [Resolved None]) (exec_calls demo_host)
         (lint_call (demo_env [Resolved None]) demo_editor demo_package) = Resolved None"
    by simp
  from conjunct1[OF lint_superseded_changes_nothing[of "demo_env [Resolved None]" demo_editor
      demo_package demo_host]] a b
  have 1: "lint (demo_env [Resolved None]) demo_editor demo_package demo_host
       = Some (Inr Null, demo_package, demo_host\<lparr>exec_calls := [?c]\<rparr>)"
    by (simp add: demo_package_def)
  let ?e = "demo_env [Rejected starting_error, Resolved None]"
  let ?p = "demo_package\<lparr>spawnedServers := [''/proj'']\<rparr>"
  have ns: "note_spawned ?e demo_editor demo_package starting_error = ?p"
    by (simp add: note_spawned_def truthy_def demo_package_def Set_add_def)
  have "lint ?e demo_editor demo_package demo_host
        = lint ?e demo_editor ?p (record_call (lint_call ?e demo_editor demo_package) demo_host)"
    using lint_retry[of ?e demo_editor demo_package demo_host starting_error]
    by (simp add: ns)
  also have "\<dots> = Some (Inr Null, ?p,
                 record_call (lint_call ?e demo_editor ?p)
                   (record_call (lint_call ?e demo_editor demo_package) demo_host))"
    by (rule lint_superseded) simp_all
  finally have 2: "lint ?e demo_editor demo_package demo_host
       = Some (Inr Null, ?p, demo_host\<lparr>exec_calls := [?c, ?c]\<rparr>)"
    by (simp add: record_call_def demo_package_def)
  from conjunct2[OF lint_superseded_changes_nothing[of ?e demo_editor demo_package demo_host
      ?p "demo_host\<lparr>exec_calls := [?c, ?c]\<rparr>"]] 2
  have 3: "coverages ?p = coverages demo_package \<and> coverageView ?p = coverageView demo_package
        \<and> tooltips (demo_host\<lparr>exec_calls := [?c, ?c]\<rparr>) = tooltips demo_host"
    by blast
  from a b 1 2 3 show ?thesis by blast
qed

theorem lint_messages_follow_showUncovered_witness:
  "\<not> inappropriate (demo_env [Resolved (Some demo_output)]) demo_editor demo_package
   \<and> exec (demo_env [Resolved (Some demo_output)]) (exec_calls demo_host)
         (lint_call (demo_env [Resolved (Some demo_output)]) demo_editor demo_package)
       = Resolved (Some demo_output)
   \<and> JSON_parse (demo_env [Resolved (Some demo_output)]) demo_output = Inr (Report demo_report)
   \<and> showUncovered demo_package
   \<and> (\<exists>ms pkg' h'.
         lint (demo_env [Resolved (Some demo_output)]) demo_editor demo_package demo_host
         = Some (Inr (Messages ms), pkg', h')
         \<and> coverages pkg' = (coverages demo_package)(demo_editor \<mapsto> Report demo_report)
         \<and> length ms = 1
         \<and> map location ms = uncoveredLocations demo_report)
   \<and> \<not> showUncovered (demo_package\<lparr>showUncovered := False\<rparr>)
   \<and> (\<exists>pkg' h'.
         lint (demo_env [Resolved (Some demo_output)]) demo_editor
           (demo_package\<lparr>showUncovered := False\<rparr>) demo_host
         = Some (Inr (Messages []), pkg', h')
         \<and> coverages pkg' = (coverages demo_package)(demo_editor \<mapsto> Report demo_report))"
proof -
  let ?e = "demo_env [Resolved (Some demo_output)]"
  have a: "\<not> inappropriate ?e demo_editor pkg" for pkg by simp
  have b: "exec ?e (exec_calls demo_host) (lint_call ?e demo_editor pkg)
           = Resolved (Some demo_output)" for pkg
    by simp
  have c: "JSON_parse ?e demo_output = Inr (Report demo_report)" by simp
  have d: "showUncovered demo_package" by (simp add: demo_package_def)
  have n: "length (uncoveredLocations demo_report) = 1" by (simp add: demo_report_def)
  from lint_messages_follow_showUncovered[OF a b c, of demo_package] d n
  have 1: "\<exists>ms pkg' h'.
         lint ?e demo_editor demo_package demo_host = Some (Inr (Messages ms), pkg', h')
         \<and> coverages pkg' = (coverages demo_package)(demo_editor \<mapsto> Report demo_report)
         \<and> length ms = 1
         \<and> map location ms = uncoveredLocations demo_report"
    by auto
  from lint_messages_follow_showUncovered[OF a b c, of "demo_package\<lparr>showUncovered := False\<rparr>"]
  have 2: "\<exists>pkg' h'.
         lint ?e demo_editor (demo_package\<lparr>showUncovered := False\<rparr>) demo_host
         = Some (Inr (Messages []), pkg', h')
         \<and> coverages pkg' = (coverages demo_package)(demo_editor \<mapsto> Report demo_report)"
    by auto
  from a[of demo_package] b[of demo_package] c d 1 2 show ?thesis by simp
qed

theorem lint_failure_without_marker_witness:
  "\<not> inappropriate (demo_env [Rejected missing_error]) demo_editor demo_package
   \<and> exec (demo_env [Rejected missing_error]) (exec_calls demo_host)
         (lint_call (demo_env [Rejected missing_error]) demo_editor demo_package)
       = Rejected missing_error
   \<and> \<not> has_init_marker (demo_env [Rejected missing_error]) missing_error
   \<and> \<not> has_rechecking_marker (demo_env [Rejected missing_error]) missing_error
   \<and> code missing_error = Some ''ENOENT''
   \<and> lint (demo_env [Rejected missing_error]) demo_editor demo_package demo_host
       = Some (Inl (Error ''Unable to find `flow` executable.'' None), demo_package,
               demo_host\<lparr>exec_calls :=
                 [coverage_call ''flow'' ''/proj/src/a.js'' ''/proj/src'']\<rparr>)
   \<and> \<not> inappropriate (demo_env [Rejected timeout_error]) demo_editor demo_package
   \<and> exec (demo_env [Rejected timeout_error]) (exec_calls demo_host)
         (lint_call (demo_env [Rejected timeout_error]) demo_editor demo_package)
       = Rejected timeout_error
   \<and> \<not> has_init_marker (demo_env [Rejected timeout_error]) timeout_error
   \<and> \<not> has_rechecking_marker (demo_env [Rejected timeout_error]) timeout_error
   \<and> code timeout_error \<noteq> Some ''ENOENT''
   \<and> lint (demo_env [Rejected timeout_error]) demo_editor demo_package demo_host
       = Some (Inl timeout_error, demo_package,
               demo_host\<lparr>exec_calls :=
                 [coverage_call ''flow'' ''/proj/src/a.js'' ''/proj/src'']\<rparr>)"
proof -
  let ?m = "demo_env [Rejected missing_error]" and ?t = "demo_env [Rejected timeout_error]"
  have m: "\<not> inappropriate ?m demo_editor demo_package"
    "exec ?m (exec_calls demo_host) (lint_call ?m demo_editor demo_package)
     = Rejected missing_error"
    "\<not> has_init_marker ?m missing_error" "\<not> has_rechecking_marker ?m missing_error"
    by simp_all
  have t: "\<not> inappropriate ?t demo_editor demo_package"
    "exec ?t (exec_calls demo_host) (lint_call ?t demo_editor demo_package)
     = Rejected timeout_error"
    "\<not> has_init_marker ?t timeout_error" "\<not> has_rechecking_marker ?t timeout_error"
    by simp_all
  have c: "code missing_error = Some ''ENOENT''" "code timeout_error \<noteq> Some ''ENOENT''"
    by (simp_all add: missing_error_def timeout_error_def)
  from lint_failure_without_marker[OF m] lint_failure_without_marker[OF t] m t c
  show ?thesis by (simp add: demo_package_def)
qed

text \<open>
  Claim C4, as stated, fails: the markers are looked for before the code. The failure to
  spawn a binary whose path has the words of the initializing marker has the code
  \<open>ENOENT\<close> and that marker in its text; \<open>lint\<close> retries, and here returns the messages of
  the second invocation.
\<close>

theorem lint_not_found_counterexample:
  "code busy_path_error = Some ''ENOENT''
   \<and> exec (demo_env [Rejected busy_path_error, Resolved (Some demo_output)])
         (exec_calls demo_host)
         (lint_call (demo_env [Rejected busy_path_error, Resolved (Some demo_output)])
            demo_editor (demo_package\<lparr>executablePath := ''/opt/flow server/bin/flow''\<rparr>))
       = Rejected busy_path_error
   \<and> map_option fst
         (lint (demo_env [Rejected busy_path_error, Resolved (Some demo_output)]) demo_editor
            (demo_package\<lparr>executablePath := ''/opt/flow server/bin/flow''\<rparr>) demo_host)
       = Some (Inr (Messages
            [\<lparr>diagnostic_severity = Info,
              location = \<lparr>region_start = \<lparr>line = 4, column = 7\<rparr>,
                          region_end = \<lparr>line = 4, column = 12\<rparr>\<rparr>\<rparr>]))
   \<and> map_option (length \<circ> exec_calls \<circ> snd \<circ> snd)
         (lint (demo_env [Rejected busy_path_error, Resolved (Some demo_output)]) demo_editor
            (demo_package\<lparr>executablePath := ''/opt/flow server/bin/flow''\<rparr>) demo_host)
       = Some 2"
proof -
  let ?e = "demo_env [Rejected busy_path_error, Resolved (Some demo_output)]"
  let ?p = "demo_package\<lparr>executablePath := ''/opt/flow server/bin/flow''\<rparr>"
  have a: "\<not> inappropriate ?e demo_editor ?p" by simp
  have b: "exec ?e (exec_calls demo_host) (lint_call ?e demo_editor ?p) = Rejected busy_path_error"
    by simp
  have c: "has_init_marker ?e busy_path_error \<or> has_rechecking_marker ?e busy_path_error"
    by simp
  have d: "exec ?e (exec_calls demo_host @ [lint_call ?e demo_editor ?p])
             (lint_call ?e demo_editor ?p) = Resolved (Some demo_output)"
    by simp
  have f: "JSON_parse ?e demo_output = Inr (Report demo_report)" by simp
  note l = lint_retry_once_then_parsed[OF a b c d f]
  have 1: "map_option fst (lint ?e demo_editor ?p demo_host)
       = Some (Inr (Messages
            [\<lparr>diagnostic_severity = Info,
              location = \<lparr>region_start = \<lparr>line = 4, column = 7\<rparr>,
                          region_end = \<lparr>line = 4, column = 12\<rparr>\<rparr>\<rparr>]))"
    unfolding l
    by (simp add: demo_package_def toCoverageLinterMessages_def demo_report_def demo_env_def)
  have 2: "map_option (length \<circ> exec_calls \<circ> snd \<circ> snd) (lint ?e demo_editor ?p demo_host)
           = Some 2"
    unfolding l by simp
  have 3: "code busy_path_error = Some ''ENOENT''" by (simp add: busy_path_error_def)
  from 1 2 3 b show ?thesis by simp
qed

lemma demo_starting_then_parsed:
  "lint (demo_env [Rejected starting_error, Resolved (Some demo_output)]) demo_editor pkg
     demo_host
   = Some (Inr (Messages (if showUncovered pkg
                          then toCoverageLinterMessages
                                 (demo_env [Rejected starting_error, Resolved (Some demo_output)])
                                 demo_report
                          else [])),
           update_coverageView demo_report
             ((note_spawned (demo_env [Rejected starting_error, Resolved (Some demo_output)])
                 demo_editor pkg starting_error)
                \<lparr>coverages := (coverages pkg)(demo_editor \<mapsto> Report demo_report)\<rparr>)
             (record_call
                (lint_call (demo_env [Rejected starting_error, Resolved (Some demo_output)])
                   demo_editor pkg)
                (record_call
                   (lint_call (demo_env [Rejected starting_error, Resolved (Some demo_output)])
                      demo_editor pkg)
                   demo_host)))"
proof -
  let ?e = "demo_env [Rejected starting_error, Resolved (Some demo_output)]"
  have a: "\<not> inappropriate ?e demo_editor pkg" by simp
  have b: "exec ?e (exec_calls demo_host) (lint_call ?e demo_editor pkg) = Rejected starting_error"
    by simp
  have c: "has_init_marker ?e starting_error \<or> has_rechecking_marker ?e starting_error"
    by simp
  have d: "exec ?e (exec_calls demo_host @ [lint_call ?e demo_editor pkg])
             (lint_call ?e demo_editor pkg) = Resolved (Some demo_output)"
    by simp
  have f: "JSON_parse ?e demo_output = Inr (Report demo_report)" by simp
  show ?thesis by (rule lint_retry_once_then_parsed[OF a b c d f])
qed

theorem lint_retries_while_busy_witness:
  "\<not> inappropriate (demo_env [Rejected starting_error, Resolved (Some demo_output)])
       demo_editor demo_package
   \<and> (\<exists>pkg'. lint (demo_env [Rejected starting_error, Resolved (Some demo_output)])
                 demo_editor demo_package demo_host
               = lint (demo_env [Rejected starting_error, Resolved (Some demo_output)])
                   demo_editor pkg'
                   (demo_host\<lparr>exec_calls :=
                      [coverage_call ''flow'' ''/proj/src/a.js'' ''/proj/src'']\<rparr>)
             \<and> pkg'\<lparr>spawnedServers := spawnedServers demo_package\<rparr> = demo_package)
   \<and> exec (demo_env [Rejected starting_error, Resolved (Some demo_output)]) (exec_calls demo_host)
         (coverage_call ''flow'' ''/proj/src/a.js'' ''/proj/src'') = Rejected starting_error
   \<and> has_init_marker (demo_env [Rejected starting_error, Resolved (Some demo_output)])
         starting_error
   \<and> exec (demo_env [Rejected starting_error, Resolved (Some demo_output)])
         (exec_calls demo_host @ [coverage_call ''flow'' ''/proj/src/a.js'' ''/proj/src''])
         (coverage_call ''flow'' ''/proj/src/a.js'' ''/proj/src'') = Resolved (Some demo_output)
   \<and> JSON_parse (demo_env [Rejected starting_error, Resolved (Some demo_output)]) demo_output
       = Inr (Report demo_report)
   \<and> (\<exists>pkg' h'. lint (demo_env [Rejected starting_error, Resolved (Some demo_output)])
                    demo_editor demo_package demo_host
                  = Some (Inr (Messages
                       [\<lparr>diagnostic_severity = Info,
                         location = \<lparr>region_start = \<lparr>line = 4, column = 7\<rparr>,
                                     region_end = \<lparr>line = 4, column = 12\<rparr>\<rparr>\<rparr>]), pkg', h')
                \<and> exec_calls h'
                    = [coverage_call ''flow'' ''/proj/src/a.js'' ''/proj/src'',
                       coverage_call ''flow'' ''/proj/src/a.js'' ''/proj/src''])"
proof -
  let ?e = "demo_env [Rejected starting_error, Resolved (Some demo_output)]"
  let ?c = "coverage_call ''flow'' ''/proj/src/a.js'' ''/proj/src''"
  have c: "lint_call ?e demo_editor demo_package = ?c" by (simp add: demo_package_def)
  have a: "\<not> inappropriate ?e demo_editor demo_package" by simp
  have b: "exec ?e (exec_calls demo_host) ?c = Rejected starting_error"
    "has_init_marker ?e starting_error"
    "exec ?e (exec_calls demo_host @ [?c]) ?c = Resolved (Some demo_output)"
    "JSON_parse ?e demo_output = Inr (Report demo_report)"
    by simp_all
  have n: "\<forall>i<1. \<exists>error.
         exec ?e (exec_calls demo_host @ replicate i ?c) ?c = Rejected error
         \<and> (has_init_marker ?e error \<or> has_rechecking_marker ?e error)"
    using b(1,2) by auto
  have m: "toCoverageLinterMessages ?e demo_report
           = [\<lparr>diagnostic_severity = Info,
               location = \<lparr>region_start = \<lparr>line = 4, column = 7\<rparr>,
                           region_end = \<lparr>line = 4, column = 12\<rparr>\<rparr>\<rparr>]"
    by (simp add: toCoverageLinterMessages_def demo_report_def demo_env_def)
  have s: "showUncovered demo_package" by (simp add: demo_package_def)
  note t = lint_retries_while_busy[OF a, of 1 demo_host, unfolded c]
  from conjunct1[OF t] n
  have 1: "\<exists>pkg'. lint ?e demo_editor demo_package demo_host
               = lint ?e demo_editor pkg' (demo_host\<lparr>exec_calls := [?c]\<rparr>)
             \<and> pkg'\<lparr>spawnedServers := spawnedServers demo_package\<rparr> = demo_package"
    by simp
  from conjunct2[OF t] b
  have "\<exists>pkg' h'. lint ?e demo_editor demo_package demo_host
                  = Some (Inr (Messages (if showUncovered demo_package
                                         then toCoverageLinterMessages ?e demo_report
                                         else [])), pkg', h')
                \<and> exec_calls h' = exec_calls demo_host @ [?c, ?c]"
    by blast
  then have 2: "\<exists>pkg' h'. lint ?e demo_editor demo_package demo_host
                  = Some (Inr (Messages
                       [\<lparr>diagnostic_severity = Info,
                         location = \<lparr>region_start = \<lparr>line = 4, column = 7\<rparr>,
                                     region_end = \<lparr>line = 4, column = 12\<rparr>\<rparr>\<rparr>]), pkg', h')
                \<and> exec_calls h' = [?c, ?c]"
    by (simp add: s m)
  from a 1 b 2 show ?thesis by blast
qed

lemma demo_empty_object [simp]:
  "JSON_parse (demo_env s) ''{}'' = Inr (Other (JObject []))"
  by (simp add: demo_env_def demo_output_def)

text \<open>
  Claim C6, as stated, fails: the parsed value is cached before the view reads it. When
  the checker's output is the valid JSON text \<open>{}\<close>, the call throws the TypeError of
  \<open>update\<close>'s first statement, and the entry that held the earlier report holds the empty
  object.
\<close>

theorem cache_overwritten_counterexample:
  "coverages cached_package demo_editor = Some (Report demo_report)
   \<and> exec (demo_env [Resolved (Some ''{}'')]) (exec_calls demo_host)
         (lint_call (demo_env [Resolved (Some ''{}'')]) demo_editor cached_package)
       = Resolved (Some ''{}'')
   \<and> JSON_parse (demo_env [Resolved (Some ''{}'')]) ''{}'' = Inr (Other (JObject []))
   \<and> map_option fst
         (lint (demo_env [Resolved (Some ''{}'')]) demo_editor cached_package demo_host)
       = Some (Inl (TypeError ''covered_count'' ''undefined''))
   \<and> map_option (cached_after demo_editor)
         (lint (demo_env [Resolved (Some ''{}'')]) demo_editor cached_package demo_host)
       = Some (Some (Other (JObject [])))"
proof -
  let ?e = "demo_env [Resolved (Some ''{}'')]"
  let ?c = "lint_call ?e demo_editor cached_package"
  have x: "exec ?e (exec_calls demo_host) ?c = Resolved (Some ''{}'')" by simp
  have p: "JSON_parse ?e ''{}'' = Inr (Other (JObject []))" by simp
  have l: "lint ?e demo_editor cached_package demo_host
           = Some (after_parse ?e demo_editor cached_package (record_call ?c demo_host)
                     (Other (JObject [])))"
    by (rule lint_parsed_value[OF demo_appropriate x p])
  have v: "coverageView cached_package = Some demo_view"
    by (simp add: cached_package_def demo_package_def)
  have a: "after_parse ?e demo_editor cached_package (record_call ?c demo_host)
             (Other (JObject []))
           = (Inl (TypeError ''covered_count'' ''undefined''),
              cached_package\<lparr>coverages :=
                (coverages cached_package)(demo_editor \<mapsto> Other (JObject []))\<rparr>,
              record_call ?c demo_host)"
    by (simp add: after_parse_def update_coverageView_value_def update_untyped_def
          update_TypeError_def v)
  have 1: "coverages cached_package demo_editor = Some (Report demo_report)"
    by (simp add: cached_package_def)
  from 1 x p show ?thesis by (simp only: l a) (simp add: cached_after_def)
qed

theorem cache_written_when_output_parses_witness:
  "(\<exists>r pkg' h'.
       lint (demo_env [Rejected starting_error, Resolved (Some demo_output)]) demo_editor
         demo_package demo_host = Some (r, pkg', h')
       \<and> \<not> inappropriate (demo_env [Rejected starting_error, Resolved (Some demo_output)])
             demo_editor demo_package
       \<and> coverages pkg' demo_editor = Some (Report demo_report)
       \<and> coverages pkg' (TextEditor 2 ''/tmp/b.js'') = None)
   \<and> (\<exists>r pkg' h'.
         lint (demo_env [Rejected missing_error]) demo_editor demo_package demo_host
         = Some (r, pkg', h')
         \<and> r = Inl not_found_error
         \<and> coverages pkg' = coverages demo_package)
   \<and> (\<exists>r pkg' h'.
         lint (demo_env []) (TextEditor 2 ''/tmp/b.js'') cached_package demo_host
         = Some (r, pkg', h')
         \<and> inappropriate (demo_env []) (TextEditor 2 ''/tmp/b.js'') cached_package
         \<and> coverages pkg' = coverages cached_package)
   \<and> \<not> inappropriate (demo_env [Rejected starting_error, Resolved (Some demo_output)])
         demo_editor demo_package
   \<and> exec (demo_env [Rejected starting_error, Resolved (Some demo_output)])
         (exec_calls demo_host)
         (lint_call (demo_env [Rejected starting_error, Resolved (Some demo_output)])
            demo_editor demo_package) = Rejected starting_error
   \<and> has_init_marker (demo_env [Rejected starting_error, Resolved (Some demo_output)])
         starting_error
   \<and> lint (demo_env [Rejected starting_error, Resolved (Some demo_output)]) demo_editor
         demo_package demo_host
       = lint (demo_env [Rejected starting_error, Resolved (Some demo_output)]) demo_editor
           (note_spawned (demo_env [Rejected starting_error, Resolved (Some demo_output)])
              demo_editor demo_package starting_error)
           (record_call
              (lint_call (demo_env [Rejected starting_error, Resolved (Some demo_output)])
                 demo_editor demo_package) demo_host)
   \<and> coverages (note_spawned (demo_env [Rejected starting_error, Resolved (Some demo_output)])
                  demo_editor demo_package starting_error) = coverages demo_package"
proof -
  let ?e = "demo_env [Rejected starting_error, Resolved (Some demo_output)]"
  let ?m = "demo_env [Rejected missing_error]"
  let ?c = "lint_call ?e demo_editor demo_package"
  obtain r pkg' h' where l: "lint ?e demo_editor demo_package demo_host = Some (r, pkg', h')"
    and r: "\<exists>ms. r = Inr (Messages ms)"
    by (simp only: demo_starting_then_parsed) (metis prod.collapse)
  have app: "\<not> inappropriate ?e demo_editor demo_package" by simp
  have 1: "coverages pkg' demo_editor = Some (Report demo_report)
           \<and> coverages pkg' (TextEditor 2 ''/tmp/b.js'') = None"
  proof -
    note t = conjunct1[OF cache_written_when_output_parses[of ?e demo_editor demo_package
        demo_host r pkg' h'], rule_format, OF l]
    from app conjunct1[OF conjunct2[OF t]] obtain n where
      x: "case exec ?e (exec_calls demo_host @ replicate n ?c) ?c of
            Resolved None \<Rightarrow> r = Inr Null \<and> coverages pkg' = coverages demo_package
          | Resolved (Some result) \<Rightarrow>
              (case JSON_parse ?e result of
                 Inl err \<Rightarrow> r = Inl err \<and> coverages pkg' = coverages demo_package
               | Inr coverage \<Rightarrow>
                   coverages pkg' = (coverages demo_package)(demo_editor \<mapsto> coverage))
          | Rejected error \<Rightarrow>
              r = Inl (if code error = Some ''ENOENT'' then not_found_error else error)
              \<and> coverages pkg' = coverages demo_package"
      by blast
    from r obtain ms where ms: "r = Inr (Messages ms)" by blast
    have o: "exec ?e (exec_calls demo_host @ replicate n ?c) ?c
             = script [Rejected starting_error, Resolved (Some demo_output)] (replicate n ?c) ?c"
      by (simp only: demo_exec demo_host_calls append_Nil)
    have "coverages pkg' = (coverages demo_package)(demo_editor \<mapsto> Report demo_report)"
    proof (cases n)
      case 0
      with x o ms show ?thesis by (simp add: script_def)
    next
      case (Suc k)
      show ?thesis
      proof (cases k)
        case 0
        with Suc x o show ?thesis by (simp add: script_def)
      next
        case (Suc j)
        with \<open>n = Suc k\<close> x o ms show ?thesis by (simp add: script_def)
      qed
    qed
    moreover have "coverages demo_package = Map.empty" by (simp add: demo_package_def)
    ultimately show ?thesis by (simp add: demo_editor_def)
  qed
  have m: "lint ?m demo_editor demo_package demo_host
           = Some (Inl not_found_error, demo_package,
                   record_call (lint_call ?m demo_editor demo_package) demo_host)"
  proof (rule lint_not_found)
    show "code missing_error = Some ''ENOENT''" by (simp add: missing_error_def)
  qed simp_all
  have 2: "\<exists>r pkg' h'.
         lint ?m demo_editor demo_package demo_host = Some (r, pkg', h')
         \<and> r = Inl not_found_error \<and> coverages pkg' = coverages demo_package"
    using m by blast
  let ?b = "TextEditor 2 ''/tmp/b.js''"
  have ib: "inappropriate (demo_env []) ?b cached_package"
    by (simp add: inappropriate_def lint_configFile_def findCachedAsync_def demo_env_def
          demo_dirname_def truthy_def cached_package_def demo_package_def)
  have lb: "lint (demo_env []) ?b cached_package demo_host
            = Some (Inr (Messages []), cached_package, demo_host)"
    by (rule lint_inappropriate[OF ib])
  from conjunct1[OF conjunct1[OF cache_written_when_output_parses[of "demo_env []" ?b
        cached_package demo_host "Inr (Messages [])" cached_package demo_host], rule_format,
        OF lb]] ib
  have "coverages cached_package = coverages cached_package" by blast
  with lb ib have 3: "\<exists>r pkg' h'.
         lint (demo_env []) ?b cached_package demo_host = Some (r, pkg', h')
         \<and> inappropriate (demo_env []) ?b cached_package
         \<and> coverages pkg' = coverages cached_package"
    by blast
  have x: "exec ?e (exec_calls demo_host) ?c = Rejected starting_error" by simp
  have i: "has_init_marker ?e starting_error" by simp
  from conjunct2[OF cache_written_when_output_parses[of ?e demo_editor demo_package
        demo_host], rule_format, of starting_error] app x i
  have 4: "lint ?e demo_editor demo_package demo_host
           = lint ?e demo_editor (note_spawned ?e demo_editor demo_package starting_error)
               (record_call ?c demo_host)
           \<and> coverages (note_spawned ?e demo_editor demo_package starting_error)
               = coverages demo_package"
    by blast
  from l app 1 2 3 x i 4 show ?thesis by blast
qed

text \<open>
  Claim C9, as stated, fails: the directory is that of the \<open>.flowconfig\<close>, which is looked
  for only when \<open>onlyIfAppropriate\<close> is set. Without that setting, a failure with the
  initializing marker records nothing, and \<open>deactivate\<close> after the call asks for no
  \<open>stop\<close> invocation.
\<close>

theorem spawned_server_counterexample:
  "has_init_marker (demo_env [Rejected starting_error, Resolved (Some demo_output)])
     starting_error
   \<and> exec (demo_env [Rejected starting_error, Resolved (Some demo_output)])
         (exec_calls demo_host)
         (lint_call (demo_env [Rejected starting_error, Resolved (Some demo_output)])
            demo_editor (demo_package\<lparr>onlyIfAppropriate := False\<rparr>))
       = Rejected starting_error
   \<and> map_option (spawnedServers \<circ> fst \<circ> snd)
         (lint (demo_env [Rejected starting_error, Resolved (Some demo_output)]) demo_editor
            (demo_package\<lparr>onlyIfAppropriate := False\<rparr>) demo_host)
       = Some []
   \<and> map_option
         (map args \<circ> exec_calls
            \<circ> deactivate_after (demo_env [Rejected starting_error, Resolved (Some demo_output)]))
         (lint (demo_env [Rejected starting_error, Resolved (Some demo_output)]) demo_editor
            (demo_package\<lparr>onlyIfAppropriate := False\<rparr>) demo_host)
       = Some [[''coverage'', ''/proj/src/a.js'', ''--json''],
               [''coverage'', ''/proj/src/a.js'', ''--json'']]"
proof -
  let ?e = "demo_env [Rejected starting_error, Resolved (Some demo_output)]"
  let ?p = "demo_package\<lparr>onlyIfAppropriate := False\<rparr>"
  have ns: "note_spawned ?e demo_editor ?p starting_error = ?p"
    by (simp add: note_spawned_def truthy_def)
  have sp: "spawnedServers demo_package = []" by (simp add: demo_package_def)
  have 1: "map_option (spawnedServers \<circ> fst \<circ> snd) (lint ?e demo_editor ?p demo_host) = Some []"
    by (simp only: demo_starting_then_parsed ns) (simp add: sp)
  have 2: "map_option (map args \<circ> exec_calls \<circ> deactivate_after ?e)
             (lint ?e demo_editor ?p demo_host)
           = Some [[''coverage'', ''/proj/src/a.js'', ''--json''],
                   [''coverage'', ''/proj/src/a.js'', ''--json'']]"
    by (simp only: demo_starting_then_parsed ns)
       (simp add: deactivate_after_def deactivate_calls sp coverage_call_def)
  have 3: "exec ?e (exec_calls demo_host) (lint_call ?e demo_editor ?p) = Rejected starting_error"
    by simp
  from 1 2 3 show ?thesis by simp
qed

theorem spawned_server_recorded_when_config_known_witness:
  "onlyIfAppropriate demo_package
   \<and> findCachedAsync (demo_env [Rejected starting_error, Resolved (Some demo_output)])
         (Path_dirname (demo_env [Rejected starting_error, Resolved (Some demo_output)])
            (getPath demo_editor)) ''.flowconfig'' = Some ''/proj/.flowconfig''
   \<and> ''/proj/.flowconfig'' \<noteq> []
   \<and> exec (demo_env [Rejected starting_error, Resolved (Some demo_output)])
         (exec_calls demo_host)
         (lint_call (demo_env [Rejected starting_error, Resolved (Some demo_output)])
            demo_editor demo_package) = Rejected starting_error
   \<and> has_init_marker (demo_env [Rejected starting_error, Resolved (Some demo_output)])
         starting_error
   \<and> (\<exists>r pkg' h'.
         lint (demo_env [Rejected starting_error, Resolved (Some demo_output)]) demo_editor
           demo_package demo_host = Some (r, pkg', h')
         \<and> ''/proj'' \<in> set (spawnedServers pkg')
         \<and> stop_call ''flow'' ''/proj''
             \<in> set (exec_calls
                      (deactivate (demo_env [Rejected starting_error, Resolved (Some demo_output)])
                         pkg' h')))"
proof -
  let ?e = "demo_env [Rejected starting_error, Resolved (Some demo_output)]"
  have a: "onlyIfAppropriate demo_package" by (simp add: demo_package_def)
  have b: "findCachedAsync ?e (Path_dirname ?e (getPath demo_editor)) ''.flowconfig''
           = Some ''/proj/.flowconfig''"
    by simp
  have c: "''/proj/.flowconfig'' \<noteq> []" by simp
  have d: "exec ?e (exec_calls demo_host) (lint_call ?e demo_editor demo_package)
           = Rejected starting_error"
    by simp
  have f: "has_init_marker ?e starting_error" by simp
  note t = spawned_server_recorded_when_config_known[OF a b c d f]
  obtain r pkg' h' where l: "lint ?e demo_editor demo_package demo_host = Some (r, pkg', h')"
    by (simp only: demo_starting_then_parsed) (metis prod.collapse)
  from conjunct2[OF t, rule_format, OF l]
  have m: "''/proj'' \<in> set (spawnedServers pkg')"
    and s: "stop_call (stop_executable ?e pkg' ''/proj'') ''/proj''
             \<in> set (exec_calls (deactivate ?e pkg' h'))"
    by simp_all
  from lint_spawnedServers_grow[OF l] have "executablePath pkg' = []"
    by (simp add: demo_package_def)
  then have "stop_executable ?e pkg' ''/proj'' = ''flow''"
    by (simp add: stop_executable_def demo_env_def defaultFlowBinLocation_def)
  with m s l have "\<exists>r pkg' h'.
         lint ?e demo_editor demo_package demo_host = Some (r, pkg', h')
         \<and> ''/proj'' \<in> set (spawnedServers pkg')
         \<and> stop_call ''flow'' ''/proj'' \<in> set (exec_calls (deactivate ?e pkg' h'))"
    by auto
  with a b c d f show ?thesis by blast
qed

theorem getExecutablePath_resolution_witness:
  "executablePath (demo_package\<lparr>executablePath := ''/usr/local/bin/flow''\<rparr>) \<noteq> []
   \<and> getExecutablePath (demo_env []) (demo_package\<lparr>executablePath := ''/usr/local/bin/flow''\<rparr>)
         ''/app/src'' = ''/usr/local/bin/flow''
   \<and> executablePath demo_package = []
   \<and> findCachedAsync (demo_env []) ''/app/src'' ''node_modules/.bin/flow''
       = Some ''/app/node_modules/.bin/flow''
   \<and> ''/app/node_modules/.bin/flow'' \<noteq> []
   \<and> getExecutablePath (demo_env []) demo_package ''/app/src'' = ''/app/node_modules/.bin/flow''
   \<and> \<not> truthy (findCachedAsync (demo_env []) ''/proj/src'' ''node_modules/.bin/flow'')
   \<and> getExecutablePath (demo_env []) demo_package ''/proj/src'' = ''flow''"
proof -
  have a: "executablePath (demo_package\<lparr>executablePath := ''/usr/local/bin/flow''\<rparr>) \<noteq> []"
    by simp
  have b: "executablePath demo_package = []" by (simp add: demo_package_def)
  have c: "findCachedAsync (demo_env []) ''/app/src'' ''node_modules/.bin/flow''
           = Some ''/app/node_modules/.bin/flow''"
    by (simp add: findCachedAsync_def demo_env_def)
  have d: "\<not> truthy (findCachedAsync (demo_env []) ''/proj/src'' ''node_modules/.bin/flow'')"
    by (simp add: findCachedAsync_def demo_env_def truthy_def)
  from getExecutablePath_resolution[of "demo_package\<lparr>executablePath := ''/usr/local/bin/flow''\<rparr>"
      "demo_env []" "''/app/src''"] a
  have 1: "getExecutablePath (demo_env [])
             (demo_package\<lparr>executablePath := ''/usr/local/bin/flow''\<rparr>) ''/app/src''
           = ''/usr/local/bin/flow''"
    by simp
  from getExecutablePath_resolution[of demo_package "demo_env []" "''/app/src''"] b c
  have 2: "getExecutablePath (demo_env []) demo_package ''/app/src''
           = ''/app/node_modules/.bin/flow''"
    by simp
  from getExecutablePath_resolution[of demo_package "demo_env []" "''/proj/src''"] b d
  have 3: "getExecutablePath (demo_env []) demo_package ''/proj/src'' = ''flow''"
    by simp
  from a b c d 1 2 3 show ?thesis by simp
qed

end
